theory Spec2Isabelle
  imports Main "HOL-Library.Sublist" "HOL-Library.AList"
begin

section \<open>Python strings\<close>

text \<open>
  A Python \<open>str\<close> is modelled as a \<open>string\<close>: a list of characters, each one code
  point. HOL characters are the code points below 256, so the model covers texts in
  that range; \<open>length\<close> is Python's \<open>len\<close>. The functions below are the built-in
  string methods that \<open>burp_client.py\<close> calls, with the behaviour CPython has on
  such texts.
\<close>

abbreviation LF :: char where "LF \<equiv> CHR 0x0A"
abbreviation CR :: char where "CR \<equiv> CHR 0x0D"

text \<open>\<open>str.isspace\<close> on one character: the code points that \<open>str.strip()\<close> removes.\<close>

definition is_space :: "char \<Rightarrow> bool" where
  "is_space c = (c \<in> set [CHR 0x09, CHR 0x0A, CHR 0x0B, CHR 0x0C, CHR 0x0D,
       CHR 0x1C, CHR 0x1D, CHR 0x1E, CHR 0x1F, CHR 0x20, CHR 0x85, CHR 0xA0])"

text \<open>\<open>s.strip()\<close>: leading and trailing whitespace removed.\<close>

definition py_strip :: "string \<Rightarrow> string" where
  "py_strip s = rev (dropWhile is_space (rev (dropWhile is_space s)))"

text \<open>
  \<open>s.lower()\<close>: the cased letters below code point 256 are A to Z and the
  letters 0xC0 to 0xDE without the multiplication sign 0xD7; each is 32 below its
  lower-case form.
\<close>

definition upper_letters :: string where
  "upper_letters = ''ABCDEFGHIJKLMNOPQRSTUVWXYZ'' @
     [CHR 0xC0, CHR 0xC1, CHR 0xC2, CHR 0xC3, CHR 0xC4, CHR 0xC5, CHR 0xC6, CHR 0xC7,
      CHR 0xC8, CHR 0xC9, CHR 0xCA, CHR 0xCB, CHR 0xCC, CHR 0xCD, CHR 0xCE, CHR 0xCF,
      CHR 0xD0, CHR 0xD1, CHR 0xD2, CHR 0xD3, CHR 0xD4, CHR 0xD5, CHR 0xD6,
      CHR 0xD8, CHR 0xD9, CHR 0xDA, CHR 0xDB, CHR 0xDC, CHR 0xDD, CHR 0xDE]"

definition lower_letters :: string where
  "lower_letters = ''abcdefghijklmnopqrstuvwxyz'' @
     [CHR 0xE0, CHR 0xE1, CHR 0xE2, CHR 0xE3, CHR 0xE4, CHR 0xE5, CHR 0xE6, CHR 0xE7,
      CHR 0xE8, CHR 0xE9, CHR 0xEA, CHR 0xEB, CHR 0xEC, CHR 0xED, CHR 0xEE, CHR 0xEF,
      CHR 0xF0, CHR 0xF1, CHR 0xF2, CHR 0xF3, CHR 0xF4, CHR 0xF5, CHR 0xF6,
      CHR 0xF8, CHR 0xF9, CHR 0xFA, CHR 0xFB, CHR 0xFC, CHR 0xFD, CHR 0xFE]"

definition lower_char :: "char \<Rightarrow> char" where
  "lower_char c =
     (case map_of (zip upper_letters lower_letters) c of Some l \<Rightarrow> l | None \<Rightarrow> c)"

definition py_lower :: "string \<Rightarrow> string" where
  "py_lower s = map lower_char s"

text \<open>
  \<open>s.replace(old, new)\<close>: every non-overlapping occurrence of \<open>old\<close>, found from
  the left, becomes \<open>new\<close>. With an empty \<open>old\<close> Python puts \<open>new\<close> before every
  character and at the end.
\<close>

fun replace_from :: "string \<Rightarrow> string \<Rightarrow> string \<Rightarrow> string" where
  "replace_from old new [] = []"
| "replace_from old new (c # cs) =
     (if old \<noteq> [] \<and> prefix old (c # cs)
      then new @ replace_from old new (drop (length old) (c # cs))
      else c # replace_from old new cs)"

definition py_replace :: "string \<Rightarrow> string \<Rightarrow> string \<Rightarrow> string" where
  "py_replace old new s =
     (if old = [] then new @ concat (map (\<lambda>c. c # new) s) else replace_from old new s)"

text \<open>
  \<open>s.partition(sep)\<close> for a non-empty \<open>sep\<close>: the text before the first occurrence,
  the separator, the text after it; \<open>(s, "", "")\<close> when \<open>sep\<close> does not occur.
\<close>

fun py_partition :: "string \<Rightarrow> string \<Rightarrow> string \<times> string \<times> string" where
  "py_partition sep [] = ([], [], [])"
| "py_partition sep (c # cs) =
     (if prefix sep (c # cs) then ([], sep, drop (length sep) (c # cs))
      else (case py_partition sep cs of (before, mid, after) \<Rightarrow> (c # before, mid, after)))"

text \<open>
  \<open>s.split(sep)\<close> for a separator of one character: the pieces between the
  occurrences of the separator, never an empty list.
\<close>

fun py_split :: "char \<Rightarrow> string \<Rightarrow> string list" where
  "py_split sep [] = [[]]"
| "py_split sep (c # cs) =
     (if c = sep then [] # py_split sep cs
      else (case py_split sep cs of [] \<Rightarrow> [[c]] | w # ws \<Rightarrow> (c # w) # ws))"

text \<open>\<open>s.split(sep, 1)\<close> for a separator of one character: at most one cut, at the first occurrence.\<close>

definition py_split1 :: "char \<Rightarrow> string \<Rightarrow> string list" where
  "py_split1 sep s =
     (if sep \<in> set s then [takeWhile (\<lambda>c. c \<noteq> sep) s, tl (dropWhile (\<lambda>c. c \<noteq> sep) s)]
      else [s])"

text \<open>\<open>sub in s\<close> on strings.\<close>

fun py_contains :: "string \<Rightarrow> string \<Rightarrow> bool" where
  "py_contains sub [] = (sub = [])"
| "py_contains sub (c # cs) = (prefix sub (c # cs) \<or> py_contains sub cs)"

text \<open>\<open>str(n)\<close> and the \<open>{n}\<close> of an f-string for an integer: its decimal digits.\<close>

definition digit_char :: "nat \<Rightarrow> char" where
  "digit_char d = ''0123456789'' ! d"

fun str_nat :: "nat \<Rightarrow> string" where
  "str_nat n = (if n < 10 then [digit_char n]
                else str_nat (n div 10) @ [digit_char (n mod 10)])"

declare str_nat.simps [simp del]

definition str_int :: "int \<Rightarrow> string" where
  "str_int i = (if i < 0 then CHR ''-'' # str_nat (nat (- i)) else str_nat (nat i))"

section \<open>Python values, dictionaries and exceptions\<close>

text \<open>
  The values that cross the client's interfaces (decoded JSON documents, results of
  the operations). A \<open>dict\<close> is an association list in insertion order with distinct
  keys: assigning to a key that is present replaces its value in place, assigning to
  a new key appends an entry (\<open>AList.update\<close>), and \<open>pop\<close> removes the entry
  (\<open>AList.delete\<close>). Floating-point numbers do not occur in the code paths modelled.
\<close>

datatype pyval =
    VNone
  | VBool bool
  | VInt int
  | VStr string
  | VList "pyval list"
  | VDict "(string \<times> pyval) list"

text \<open>Truth value of a Python object, as \<open>not x\<close> and \<open>x or y\<close> use it.\<close>

fun truthy :: "pyval \<Rightarrow> bool" where
  "truthy VNone = False"
| "truthy (VBool b) = b"
| "truthy (VInt i) = (i \<noteq> 0)"
| "truthy (VStr s) = (s \<noteq> [])"
| "truthy (VList xs) = (xs \<noteq> [])"
| "truthy (VDict kvs) = (kvs \<noteq> [])"

text \<open>\<open>d.get(key, default)\<close>.\<close>

definition dict_get :: "(string \<times> 'v) list \<Rightarrow> string \<Rightarrow> 'v \<Rightarrow> 'v" where
  "dict_get d k dflt = (case map_of d k of Some v \<Rightarrow> v | None \<Rightarrow> dflt)"

text \<open>\<open>d.update(other)\<close>: the entries of \<open>other\<close> assigned in their order.\<close>

definition dict_update :: "(string \<times> 'v) list \<Rightarrow> (string \<times> 'v) list \<Rightarrow> (string \<times> 'v) list" where
  "dict_update d other = foldl (\<lambda>acc (k, v). AList.update k v acc) d other"

text \<open>
  The exceptions that can leave the client. \<open>RuntimeError\<close> is the only class the
  client raises on purpose and the only one the tool layer catches.
\<close>

datatype exn =
    RuntimeError string
  | ValueError string
  | UnicodeDecodeError
  | IndexError
  | AttributeError
  | OSError string

type_synonym headers = "(string \<times> string) list"

section \<open>The message codec\<close>

text \<open>
  The header loop of \<open>_parse_http_request\<close>: a line with a colon is cut at the first
  colon, name and value are stripped and assigned into the dictionary; other lines
  are skipped. Unpacking \<open>k, v = line.split(":", 1)\<close> raises \<open>ValueError\<close> unless
  the split has two parts.
\<close>

fun parse_header_lines :: "string list \<Rightarrow> headers \<Rightarrow> exn + headers" where
  "parse_header_lines [] hs = Inr hs"
| "parse_header_lines (line # rest) hs =
     (if CHR '':'' \<in> set line
      then (case py_split1 (CHR '':'') line of
              [k, v] \<Rightarrow> parse_header_lines rest (AList.update (py_strip k) (py_strip v) hs)
            | _ \<Rightarrow> Inl (ValueError ''not enough values to unpack''))
      else parse_header_lines rest hs)"

text \<open>
  \<open>_parse_http_request(text)\<close>, returning \<open>(method, path, headers, body)\<close>.
  \<open>lines[0]\<close> raises \<open>IndexError\<close> on an empty list.
\<close>

definition parse_http_request :: "string \<Rightarrow> exn + (string \<times> string \<times> headers \<times> string)" where
  "parse_http_request text0 =
     (let text = py_replace [CR] [LF] (py_replace [CR, LF] [LF] text0) in
      case py_partition [LF, LF] text of (header_part, _, body) \<Rightarrow>
      (case py_split LF header_part of
         [] \<Rightarrow> Inl IndexError
       | line0 # more_lines \<Rightarrow>
           let parts = py_split (CHR '' '') (py_strip line0);
               method = (if parts \<noteq> [] then hd parts else ''GET'');
               path = (if length parts > 1 then parts ! 1 else ''/'')
           in (case parse_header_lines more_lines [] of
                 Inl e \<Rightarrow> Inl e
               | Inr hdrs \<Rightarrow> Inr (method, path, hdrs, py_strip body))))"

text \<open>
  \<open>_pop_header(headers, name)\<close>: the first key, in insertion order, that equals
  \<open>name\<close> after lower-casing both is popped and its value returned; the loop
  returns at that key. The dictionary is changed in place, so the model returns it
  beside the value.
\<close>

definition pop_header :: "headers \<Rightarrow> string \<Rightarrow> string option \<times> headers" where
  "pop_header hs name =
     (case find (\<lambda>k. py_lower k = py_lower name) (map fst hs) of
        None \<Rightarrow> (None, hs)
      | Some k \<Rightarrow> (map_of hs k, AList.delete k hs))"

section \<open>The world outside the client\<close>

text \<open>
  How a call to the store through \<open>urllib\<close> ends: an \<open>HTTPError\<close> with its
  status code and the bytes of its body; a \<open>URLError\<close>; any other exception
  (a dropped connection, a timeout while reading), raised by \<open>urlopen\<close> or by
  a \<open>read\<close>, which no handler of the client catches; or a response with the value
  of its \<open>Content-Type\<close> header (empty when the header is absent) and the bytes of
  its body. Bytes are written as a \<open>string\<close>, one character for each octet.
\<close>

datatype reply =
    HTTPError int string
  | URLError
  | Raised exn
  | Response string string

text \<open>
  The arguments of \<open>requests.request\<close>. \<open>o_data\<close> is the body before its
  encoding to bytes, \<open>None\<close> for a request without body; \<open>o_proxy_port\<close> stands
  for the two proxy entries \<open>http://127.0.0.1:port\<close>, which differ in
  nothing else.
\<close>

record outbound =
  o_method :: string
  o_url :: string
  o_headers :: headers
  o_data :: "string option"
  o_proxy_port :: int
  o_verify :: bool
  o_allow_redirects :: bool

record response =
  status_code :: int
  resp_headers :: headers
  resp_text :: string

text \<open>
  The environment of a call: the store behind \<open>base_url\<close> (already without its
  trailing slashes), the forwarding endpoint behind \<open>requests.request\<close>, which
  answers or raises, and the library functions whose results the code only passes
  on: \<open>json.loads\<close>, \<open>str.upper\<close> (which leaves the range of characters modelled
  here), \<open>str()\<close> of a list or dictionary, and the two ways of decoding bytes:
  \<open>bytes.decode()\<close>, which raises \<open>UnicodeDecodeError\<close> on bytes that are not
  UTF-8 (\<open>None\<close> here), and \<open>bytes.decode("utf-8", errors="replace")\<close>, which
  never fails. The store is addressed by the path and the query parameters; their
  encoding into the URL is \<open>urllib\<close>'s.
\<close>

record env =
  base_url :: string
  urlopen :: "string \<Rightarrow> (string \<times> string) list \<Rightarrow> reply"
  urlopen_post :: "string \<Rightarrow> pyval \<Rightarrow> reply"
  json_loads :: "string \<Rightarrow> exn + pyval"
  requests_installed :: bool
  requests_request :: "outbound \<Rightarrow> exn + response"
  str_upper :: "string \<Rightarrow> string"
  str_container :: "pyval \<Rightarrow> string"
  utf8_decode :: "string \<Rightarrow> string option"
  utf8_decode_replace :: "string \<Rightarrow> string"

text \<open>
  The calls that leave the process are recorded in the order they happen; an
  operation yields its events and either the exception raised or the value returned.
\<close>

datatype event =
    UrlOpen string "(string \<times> string) list"
  | UrlPost string pyval
  | Transmit outbound

type_synonym 'a io = "event list \<times> (exn + 'a)"

text \<open>\<open>str(v)\<close>, also the \<open>{v}\<close> of an f-string.\<close>

definition py_str :: "env \<Rightarrow> pyval \<Rightarrow> string" where
  "py_str env v =
     (case v of
        VStr s \<Rightarrow> s
      | VInt i \<Rightarrow> str_int i
      | VNone \<Rightarrow> ''None''
      | VBool b \<Rightarrow> (if b then ''True'' else ''False'')
      | _ \<Rightarrow> str_container env v)"

definition opt_str :: "string option \<Rightarrow> pyval" where
  "opt_str x = (case x of None \<Rightarrow> VNone | Some s \<Rightarrow> VStr s)"

section \<open>The client\<close>

text \<open>
  \<open>BurpClient._get\<close>: parameters that are \<open>None\<close> or the empty string are
  dropped, the others passed as strings. The body of a response is decoded with
  replacement of what is not UTF-8; a plain-text response is returned as it is, any
  other is decoded as JSON. An \<open>HTTPError\<close> is raised again as \<open>RuntimeError\<close>
  with the status and the body, whose decoding \<open>e.read().decode()\<close> is strict and
  raises \<open>UnicodeDecodeError\<close> from inside the handler; a \<open>URLError\<close> is raised
  again as \<open>RuntimeError\<close>; every other exception leaves \<open>_get\<close> as it is.
\<close>

definition p_get :: "env \<Rightarrow> string \<Rightarrow> (string \<times> pyval) list \<Rightarrow> pyval io" where
  "p_get env path params =
     (let filtered = map (\<lambda>(k, v). (k, py_str env v))
                         (filter (\<lambda>(k, v). v \<noteq> VNone \<and> v \<noteq> VStr []) params)
      in ([UrlOpen path filtered],
          case urlopen env path filtered of
            Response ct raw \<Rightarrow>
              (let body = utf8_decode_replace env raw
               in if py_contains ''text/plain'' ct then Inr (VStr body) else json_loads env body)
          | HTTPError code raw \<Rightarrow>
              (case utf8_decode env raw of
                 None \<Rightarrow> Inl UnicodeDecodeError
               | Some body \<Rightarrow> Inl (RuntimeError (''HTTP '' @ str_int code @ '': '' @ body)))
          | URLError \<Rightarrow> Inl (RuntimeError (''Cannot connect to Burp REST Bridge at '' @ base_url env
                @ ''. Is the extension loaded and Burp running?''))
          | Raised e \<Rightarrow> Inl e))"

text \<open>
  \<open>BurpClient._post\<close>: as \<open>_get\<close>, but the body of a response is decoded
  strictly and always as JSON.
\<close>

definition p_post :: "env \<Rightarrow> string \<Rightarrow> (string \<times> pyval) list \<Rightarrow> pyval io" where
  "p_post env path body =
     ([UrlPost path (VDict body)],
      case urlopen_post env path (VDict body) of
        Response ct raw \<Rightarrow>
          (case utf8_decode env raw of
             None \<Rightarrow> Inl UnicodeDecodeError
           | Some b \<Rightarrow> json_loads env b)
      | HTTPError code raw \<Rightarrow>
          (case utf8_decode env raw of
             None \<Rightarrow> Inl UnicodeDecodeError
           | Some b \<Rightarrow> Inl (RuntimeError (''HTTP '' @ str_int code @ '': '' @ b)))
      | URLError \<Rightarrow> Inl (RuntimeError (''Cannot connect to Burp REST Bridge at '' @ base_url env @ ''.''))
      | Raised e \<Rightarrow> Inl e)"

definition health :: "env \<Rightarrow> pyval io" where
  "health env = p_get env ''/health'' []"

definition docs :: "env \<Rightarrow> pyval io" where
  "docs env = p_get env ''/'' []"

text \<open>\<open>hosts\<close>: \<open>.get("hosts", [])\<close> on the decoded document, which has no \<open>get\<close> unless it is a dictionary.\<close>

definition hosts :: "env \<Rightarrow> pyval io" where
  "hosts env =
     (case p_get env ''/proxy/hosts'' [] of
        (es, Inl e) \<Rightarrow> (es, Inl e)
      | (es, Inr v) \<Rightarrow>
          (es, case v of VDict d \<Rightarrow> Inr (dict_get d ''hosts'' (VList [])) | _ \<Rightarrow> Inl AttributeError))"

record history_args =
  h_host :: "string option"
  h_method :: "string option"
  h_status :: "string option"
  h_search :: "string option"
  h_search_in :: "string option"
  h_tool :: "string option"
  h_ext_exclude :: "string option"
  h_mime :: "string option"
  h_order :: "string option"
  h_limit :: int
  h_offset :: int
  h_fields :: "string option"
  h_max_body :: int
  h_mcp_only :: bool

definition history :: "env \<Rightarrow> history_args \<Rightarrow> pyval io" where
  "history env a =
     p_get env ''/proxy/history''
       [(''host'', opt_str (h_host a)), (''method'', opt_str (h_method a)),
        (''status'', opt_str (h_status a)), (''search'', opt_str (h_search a)),
        (''search_in'', opt_str (h_search_in a)), (''tool'', opt_str (h_tool a)),
        (''ext_exclude'', opt_str (h_ext_exclude a)), (''mime'', opt_str (h_mime a)),
        (''order'', opt_str (h_order a)),
        (''limit'', VInt (h_limit a)), (''offset'', VInt (h_offset a)),
        (''fields'', opt_str (h_fields a)),
        (''max_body'', if h_max_body a > 0 then VInt (h_max_body a) else VNone),
        (''mcp'', if h_mcp_only a then VStr ''true'' else VNone)]"

text \<open>\<open>get(item_id, max_body)\<close>: the parameter is sent only when it is positive.\<close>

definition get :: "env \<Rightarrow> int \<Rightarrow> int \<Rightarrow> pyval io" where
  "get env item_id max_body =
     p_get env (''/proxy/history/'' @ str_int item_id)
       [(''max_body'', if max_body > 0 then VInt max_body else VNone)]"

definition repeater_latest :: "env \<Rightarrow> int \<Rightarrow> pyval io" where
  "repeater_latest env max_body =
     p_get env ''/repeater/latest''
       [(''max_body'', if max_body > 0 then VInt max_body else VNone)]"

definition send_to_repeater ::
  "env \<Rightarrow> int option \<Rightarrow> string option \<Rightarrow> string option \<Rightarrow> int \<Rightarrow> bool \<Rightarrow> string option \<Rightarrow> pyval io" where
  "send_to_repeater env history_id request_b64 host port https tab_name =
     (let with_tab = (\<lambda>body. case tab_name of
                         Some t \<Rightarrow> if t \<noteq> [] then AList.update ''tab_name'' (VStr t) body else body
                       | None \<Rightarrow> body)
      in case history_id of
           Some i \<Rightarrow> p_post env ''/repeater'' (with_tab [(''history_id'', VInt i)])
         | None \<Rightarrow>
             (case request_b64 of
                Some r \<Rightarrow>
                  if r \<noteq> [] then
                    p_post env ''/repeater''
                      (with_tab [(''request'', VStr r),
                                 (''host'', VStr (case host of Some h \<Rightarrow> h | None \<Rightarrow> [])),
                                 (''port'', VInt port), (''https'', VBool https)])
                  else ([], Inl (ValueError ''Provide either history_id or request_b64''))
              | None \<Rightarrow> ([], Inl (ValueError ''Provide either history_id or request_b64''))))"

definition scope :: "env \<Rightarrow> string \<Rightarrow> pyval io" where
  "scope env url = p_get env ''/scope'' [(''url'', VStr url)]"

text \<open>
  \<open>BurpClient.request\<close>. The result dictionary is returned as its entries, in
  the order the code writes them. \<open>requests.request\<close> is called once; whatever it
  raises leaves \<open>request\<close> unchanged, and a response is returned whatever its
  status code is.
\<close>

definition request ::
  "env \<Rightarrow> string \<Rightarrow> string \<Rightarrow> headers option \<Rightarrow> string option \<Rightarrow> int \<Rightarrow> int
     \<Rightarrow> (string \<times> pyval) list io" where
  "request env method url hdrs body proxy_port max_response_body =
     (if \<not> requests_installed env then ([], Inl (RuntimeError ''pip install requests''))
      else
        let send_headers0 = (case hdrs of None \<Rightarrow> [] | Some h \<Rightarrow> h);
            send_headers = (if ''X-Burp-MCP'' \<notin> set (map fst send_headers0)
                            then AList.update ''X-Burp-MCP'' ''request'' send_headers0
                            else send_headers0);
            out = \<lparr> o_method = str_upper env method, o_url = url, o_headers = send_headers,
                    o_data = body, o_proxy_port = proxy_port,
                    o_verify = False, o_allow_redirects = False \<rparr>
        in (case requests_request env out of
              Inl e \<Rightarrow> ([Transmit out], Inl e)
            | Inr resp \<Rightarrow>
                let resp_body0 = resp_text resp;
                    resp_body =
                      (if max_response_body > 0 \<and> int (length resp_body0) > max_response_body
                       then take (nat max_response_body) resp_body0
                            @ [LF] @ ''[... ''
                            @ str_int (int (length resp_body0) - max_response_body)
                            @ '' chars omitted]''
                       else resp_body0)
                in ([Transmit out],
                    Inr [(''status_code'', VInt (status_code resp)),
                         (''headers'', VDict (map (\<lambda>(k, v). (k, VStr v)) (resp_headers resp))),
                         (''body'', VStr resp_body),
                         (''url'', VStr url),
                         (''method'', VStr (str_upper env method))])))"

text \<open>
  \<open>BurpClient.repeat\<close>, statement by statement. A fetched item that is not a
  dictionary has no \<open>get\<close>; a request text or URL that is not a string has no
  \<open>replace\<close> or \<open>startswith\<close>: these raise \<open>AttributeError\<close>.
\<close>

definition repeat ::
  "env \<Rightarrow> int \<Rightarrow> (string \<times> string) list option \<Rightarrow> headers option \<Rightarrow> string option \<Rightarrow> int \<Rightarrow> int
     \<Rightarrow> (string \<times> pyval) list io" where
  "repeat env item_id replacements add_headers body proxy_port max_response_body =
     (case get env item_id 0 of
        (es, Inl e) \<Rightarrow> (es, Inl e)
      | (es, Inr item) \<Rightarrow>
        (case item of
           VDict d \<Rightarrow>
             let request_text = dict_get d ''request_text'' (VStr []) in
             if \<not> truthy request_text
             then (es, Inl (RuntimeError (''No request text for item '' @ str_int item_id)))
             else
               (case request_text of
                  VStr text0 \<Rightarrow>
                    let text = foldl (\<lambda>t (old, new). py_replace old new t) text0
                                 (case replacements of None \<Rightarrow> [] | Some r \<Rightarrow> r)
                    in (case parse_http_request text of
                          Inl e \<Rightarrow> (es, Inl e)
                        | Inr (method, path, headers0, req_body0) \<Rightarrow>
                          (case dict_get d ''url'' (VStr []) of
                             VStr item_url \<Rightarrow>
                               let scheme = (if prefix ''https'' item_url then ''https'' else ''http'');
                                   popped = pop_header headers0 ''host'';
                                   host = (case fst popped of
                                             Some h \<Rightarrow> if h \<noteq> [] then VStr h
                                                       else dict_get d ''host'' (VStr [])
                                           | None \<Rightarrow> dict_get d ''host'' (VStr []));
                                   url = scheme @ ''://'' @ py_str env host @ path;
                                   headers1 = snd (pop_header (snd popped) ''content-length'');
                                   headers2 = snd (pop_header headers1 ''transfer-encoding'');
                                   headers3 = (case add_headers of
                                                 None \<Rightarrow> headers2
                                               | Some a \<Rightarrow> dict_update headers2 a);
                                   req_body = (case body of Some b \<Rightarrow> b | None \<Rightarrow> req_body0);
                                   headers4 = AList.update ''X-Burp-MCP''
                                                (''repeat:'' @ str_int item_id) headers3
                               in (case request env method url (Some headers4)
                                          (if req_body \<noteq> [] then Some req_body else None)
                                          proxy_port max_response_body of
                                     (es', Inl e) \<Rightarrow> (es @ es', Inl e)
                                   | (es', Inr result) \<Rightarrow>
                                       (es @ es',
                                        Inr (AList.update ''item_id'' (VInt item_id) result)))
                           | _ \<Rightarrow> (es, Inl AttributeError)))
                | _ \<Rightarrow> (es, Inl AttributeError))
         | _ \<Rightarrow> (es, Inl AttributeError)))"

section \<open>The tool layer\<close>

text \<open>
  \<open>_safe(fn)\<close> of \<open>burp_mcp.py\<close>: a \<open>RuntimeError\<close> becomes the dictionary
  \<open>{"error": str(e)}\<close>; every other exception passes.
\<close>

definition safe :: "pyval io \<Rightarrow> pyval io" where
  "safe r =
     (case r of
        (es, Inl (RuntimeError msg)) \<Rightarrow> (es, Inr (VDict [(''error'', VStr msg)]))
      | _ \<Rightarrow> r)"

record search_args =
  s_host :: "string option"
  s_method :: "string option"
  s_status :: "string option"
  s_search :: "string option"
  s_search_in :: "string option"
  s_tool :: "string option"
  s_ext_exclude :: "string option"
  s_mime :: "string option"
  s_order :: "string option"
  s_limit :: int
  s_offset :: int
  s_mcp_only :: bool

text \<open>The registered tools with their arguments.\<close>

datatype tool =
    Burp_health
  | Burp_hosts
  | Burp_search search_args
  | Burp_get_item int int
  | Burp_repeater_latest int
  | Burp_send_to_repeater int "string option"
  | Burp_repeat int "(string \<times> string) list option" "headers option" "string option" int int
  | Burp_request string string "headers option" "string option" int int
  | Burp_scope string

definition dict_result :: "(string \<times> pyval) list io \<Rightarrow> pyval io" where
  "dict_result r = (case r of (es, Inl e) \<Rightarrow> (es, Inl e) | (es, Inr d) \<Rightarrow> (es, Inr (VDict d)))"

text \<open>The client call that each tool hands to \<open>_safe\<close>.\<close>

fun client_call :: "env \<Rightarrow> tool \<Rightarrow> pyval io" where
  "client_call env Burp_health = health env"
| "client_call env Burp_hosts = hosts env"
| "client_call env (Burp_search a) =
     history env
       \<lparr> h_host = s_host a, h_method = s_method a, h_status = s_status a,
         h_search = s_search a, h_search_in = s_search_in a, h_tool = s_tool a,
         h_ext_exclude = (case s_ext_exclude a of
                            Some x \<Rightarrow> if x \<noteq> [] then Some x else None
                          | None \<Rightarrow> None),
         h_mime = s_mime a, h_order = s_order a,
         h_limit = s_limit a, h_offset = s_offset a,
         h_fields = None, h_max_body = 0, h_mcp_only = s_mcp_only a \<rparr>"
| "client_call env (Burp_get_item item_id max_body) = get env item_id max_body"
| "client_call env (Burp_repeater_latest max_body) = repeater_latest env max_body"
| "client_call env (Burp_send_to_repeater history_id tab_name) =
     send_to_repeater env (Some history_id) None None 80 False tab_name"
| "client_call env (Burp_repeat item_id replacements add_headers body proxy_port max_response_body) =
     dict_result (repeat env item_id replacements add_headers body proxy_port max_response_body)"
| "client_call env (Burp_request method url hdrs body proxy_port max_response_body) =
     dict_result (request env method url hdrs body proxy_port max_response_body)"
| "client_call env (Burp_scope url) = scope env url"

definition run_tool :: "env \<Rightarrow> tool \<Rightarrow> pyval io" where
  "run_tool env t = safe (client_call env t)"

section \<open>Rebuilding raw text\<close>

text \<open>
  Modelled from the spec: \<open>build\<close>, the inverse of the parser, is not a function of
  the source (the client hands the parsed parts to \<open>requests\<close>). It is written
  here as the specification words it: a standards-conformant request line, the
  headers in their stored order, a blank-line separator, then the body, with lines
  ending in CR LF.
\<close>

definition build :: "string \<times> string \<times> headers \<times> string \<Rightarrow> string" where
  "build r =
     (case r of (method, path, hdrs, body) \<Rightarrow>
        method @ '' '' @ path @ '' HTTP/1.1'' @ [CR, LF]
        @ concat (map (\<lambda>(k, v). k @ '': '' @ v @ [CR, LF]) hdrs)
        @ [CR, LF] @ body)"

section \<open>Well-formed request text\<close>

text \<open>
  Modelled from the spec: a well-formed raw request text is given by the parts it
  is written from, so that what a text says is read off these parts and not off a
  parser. The parts are a method, a path and a version, the header fields in their
  order (each a name, the blanks before the value, the value, the blanks after
  it), the line ending and the body. A name may occur in several fields: the
  specification permits duplicates.
\<close>

record raw_request =
  rq_method :: string
  rq_path :: string
  rq_version :: string
  rq_headers :: "(string \<times> string \<times> string \<times> string) list"
  rq_eol :: string
  rq_body :: string

text \<open>Modelled from the spec: a token is not empty and holds no whitespace.\<close>

definition token :: "string \<Rightarrow> bool" where
  "token s = (s \<noteq> [] \<and> (\<forall>c\<in>set s. \<not> is_space c))"

text \<open>Modelled from the spec: the optional blanks around a header value are spaces and tabs.\<close>

definition ows :: "string \<Rightarrow> bool" where
  "ows s = (\<forall>c\<in>set s. c = CHR '' '' \<or> c = CHR 0x09)"

text \<open>Modelled from the spec: one header line, \<open>name:\<close>, blanks, value, blanks, line ending.\<close>

definition header_line :: "string \<Rightarrow> string \<times> string \<times> string \<times> string \<Rightarrow> string" where
  "header_line eol f = (case f of (name, pre, v, post) \<Rightarrow> name @ '':'' @ pre @ v @ post @ eol)"

text \<open>
  Modelled from the spec: the text of a request, that is the request line, the
  header lines, a blank line and the body.
\<close>

definition render :: "raw_request \<Rightarrow> string" where
  "render rq = rq_method rq @ '' '' @ rq_path rq @ '' '' @ rq_version rq @ rq_eol rq
               @ concat (map (header_line (rq_eol rq)) (rq_headers rq))
               @ rq_eol rq @ rq_body rq"

text \<open>Modelled from the spec: the header fields a text states, names and values in order.\<close>

definition header_fields :: "raw_request \<Rightarrow> headers" where
  "header_fields rq = map (\<lambda>(name, pre, v, post). (name, v)) (rq_headers rq)"

text \<open>
  Modelled from the spec: the body up to whitespace, that is with every line ending
  written as a line feed and without the whitespace before and after it.
\<close>

definition body_content :: "string \<Rightarrow> string" where
  "body_content b = py_strip (py_replace [CR] [LF] (py_replace [CR, LF] [LF] b))"

text \<open>
  Modelled from the spec: a request is well formed when method, path and version
  are tokens, lines end in LF or in CR LF, and every header field has a token
  without colon as its name, blanks around its value, and a value that neither
  starts nor ends with whitespace and holds no line break.
\<close>

definition well_formed :: "raw_request \<Rightarrow> bool" where
  "well_formed rq =
     (token (rq_method rq) \<and> token (rq_path rq) \<and> token (rq_version rq) \<and>
      (rq_eol rq = [LF] \<or> rq_eol rq = [CR, LF]) \<and>
      (\<forall>(name, pre, v, post)\<in>set (rq_headers rq).
         token name \<and> CHR '':'' \<notin> set name \<and> ows pre \<and> ows post \<and>
         py_strip v = v \<and> LF \<notin> set v \<and> CR \<notin> set v))"

text \<open>
  Modelled from the spec: the same request in the layout that \<open>build\<close> writes:
  version \<open>HTTP/1.1\<close>, one space before each value and none after it, lines ending
  in CR LF, the body up to whitespace. Method, path, header names and header
  values are kept as they are.
\<close>

definition canonical :: "raw_request \<Rightarrow> raw_request" where
  "canonical rq =
     \<lparr> rq_method = rq_method rq, rq_path = rq_path rq, rq_version = ''HTTP/1.1'',
       rq_headers = map (\<lambda>(name, pre, v, post). (name, '' '', v, [])) (rq_headers rq),
       rq_eol = [CR, LF], rq_body = body_content (rq_body rq) \<rparr>"

text \<open>A request with two header fields of the same name.\<close>

definition two_cookies :: raw_request where
  "two_cookies =
     \<lparr> rq_method = ''GET'', rq_path = ''/'', rq_version = ''HTTP/1.1'',
       rq_headers = [(''Cookie'', '' '', ''a=1'', []), (''Cookie'', '' '', ''b=2'', [])],
       rq_eol = [CR, LF], rq_body = [] \<rparr>"

text \<open>
  A request with lines ending in LF, blanks of several kinds around a header value,
  none around another, and whitespace around its body.
\<close>

definition login_request :: raw_request where
  "login_request =
     \<lparr> rq_method = ''POST'', rq_path = ''/login'', rq_version = ''HTTP/1.0'',
       rq_headers = [(''Host'', [CHR 0x09, CHR '' ''], ''a.test'', '' ''),
                     (''Content-Length'', [], ''9'', [])],
       rq_eol = [LF], rq_body = [LF] @ ''user=bob'' @ [CR, LF] \<rparr>"

section \<open>Concrete environments\<close>

text \<open>
  A store that answers every request with a JSON document decoding to \<open>item\<close>, and
  a forwarding endpoint that answers every request with \<open>resp\<close>. Methods are
  upper-cased on the letters a to z, and all bytes decode to themselves.
\<close>

definition ascii_upper :: "string \<Rightarrow> string" where
  "ascii_upper s =
     map (\<lambda>c. case map_of (zip ''abcdefghijklmnopqrstuvwxyz'' ''ABCDEFGHIJKLMNOPQRSTUVWXYZ'') c of
                 Some u \<Rightarrow> u | None \<Rightarrow> c) s"

definition demo_env :: "pyval \<Rightarrow> response \<Rightarrow> env" where
  "demo_env item resp =
     \<lparr> base_url = ''http://127.0.0.1:8090'',
       urlopen = (\<lambda>path query. Response ''application/json'' []),
       urlopen_post = (\<lambda>path body. Response ''application/json'' []),
       json_loads = (\<lambda>body. Inr item),
       requests_installed = True,
       requests_request = (\<lambda>out. Inr resp),
       str_upper = ascii_upper,
       str_container = (\<lambda>v. []),
       utf8_decode = (\<lambda>raw. Some raw),
       utf8_decode_replace = (\<lambda>raw. raw) \<rparr>"

definition demo_resp :: "int \<Rightarrow> string \<Rightarrow> response" where
  "demo_resp code txt = \<lparr> status_code = code, resp_headers = [], resp_text = txt \<rparr>"

text \<open>An item as the store returns it: its raw request text, its URL and its host.\<close>

definition demo_item :: "string \<Rightarrow> string \<Rightarrow> string \<Rightarrow> pyval" where
  "demo_item txt u h = VDict [(''request_text'', VStr txt), (''url'', VStr u), (''host'', VStr h)]"


text \<open>The requests handed to the forwarding endpoint, in order.\<close>

fun transmitted :: "event list \<Rightarrow> outbound list" where
  "transmitted [] = []"
| "transmitted (Transmit out # es) = out # transmitted es"
| "transmitted (e # es) = transmitted es"

text \<open>
  A store that answers with status 500 and a body that is not UTF-8, and a store
  that drops the connection while the response is read.
\<close>

definition garbled_env :: env where
  "garbled_env = (demo_env VNone (demo_resp 200 []))
     \<lparr> urlopen := (\<lambda>path query. HTTPError 500 [CHR 0xFF]),
       utf8_decode := (\<lambda>raw. if raw = [CHR 0xFF] then None else Some raw) \<rparr>"

definition dropped_env :: env where
  "dropped_env = (demo_env VNone (demo_resp 200 []))
     \<lparr> urlopen := (\<lambda>path query. Raised (OSError ''RemoteDisconnected'')) \<rparr>"

text \<open>A forwarding endpoint that cannot be reached: \<open>requests\<close> raises its own exception.\<close>

definition proxy_down_env :: env where
  "proxy_down_env = (demo_env VNone (demo_resp 200 []))
     \<lparr> requests_request := (\<lambda>out. Inl (OSError ''ProxyError'')) \<rparr>"




section \<open>Events of the client operations\<close>

lemma get_events: "fst (get env item_id 0) = [UrlOpen (''/proxy/history/'' @ str_int item_id) []]"
  by (simp add: get_def p_get_def)

lemma update_key_present: "k \<in> fst ` set (AList.update k v al)"
  by (induction al) auto

lemma map_of_absent: "k \<notin> fst ` set al \<Longrightarrow> map_of al k = None"
  by (simp add: map_of_eq_None_iff)

lemma request_events:
  "fst (request env method url hdrs body pp mrb) =
     (if requests_installed env
      then [Transmit \<lparr> o_method = str_upper env method, o_url = url,
              o_headers = (let h = (case hdrs of None \<Rightarrow> [] | Some h \<Rightarrow> h)
                           in if ''X-Burp-MCP'' \<notin> set (map fst h)
                              then AList.update ''X-Burp-MCP'' ''request'' h else h),
              o_data = body, o_proxy_port = pp, o_verify = False, o_allow_redirects = False \<rparr>]
      else [])"
  by (simp add: request_def Let_def split: sum.splits)

lemma request_eventsD:
  "request env meth target hdrs body pp mrb = (es, r) \<Longrightarrow>
   es = (if requests_installed env
      then [Transmit \<lparr> o_method = str_upper env meth, o_url = target,
              o_headers = (let h = (case hdrs of None \<Rightarrow> [] | Some h \<Rightarrow> h)
                           in if ''X-Burp-MCP'' \<notin> set (map fst h)
                              then AList.update ''X-Burp-MCP'' ''request'' h else h),
              o_data = body, o_proxy_port = pp, o_verify = False, o_allow_redirects = False \<rparr>]
      else [])"
  using request_events[of env meth target hdrs body pp mrb] by simp

lemma repeat_transmit_shape:
  assumes "Transmit out \<in> set (fst (repeat env item_id replacements add_headers body pp mrb))"
  shows "\<exists>d text0 method path headers0 req_body0 item_url.
    snd (get env item_id 0) = Inr (VDict d) \<and>
    dict_get d ''request_text'' (VStr []) = VStr text0 \<and> text0 \<noteq> [] \<and>
    parse_http_request (foldl (\<lambda>t (old, new). py_replace old new t) text0
        (case replacements of None \<Rightarrow> [] | Some r \<Rightarrow> r)) = Inr (method, path, headers0, req_body0) \<and>
    dict_get d ''url'' (VStr []) = VStr item_url \<and>
    requests_installed env \<and>
    out = \<lparr> o_method = str_upper env method,
             o_url = (if prefix ''https'' item_url then ''https'' else ''http'') @ ''://''
                     @ py_str env (case fst (pop_header headers0 ''host'') of
                                     Some h \<Rightarrow> if h \<noteq> [] then VStr h else dict_get d ''host'' (VStr [])
                                   | None \<Rightarrow> dict_get d ''host'' (VStr []))
                     @ path,
             o_headers = AList.update ''X-Burp-MCP'' (''repeat:'' @ str_int item_id)
                 (case add_headers of
                    None \<Rightarrow> snd (pop_header (snd (pop_header (snd (pop_header headers0 ''host'')) ''content-length'')) ''transfer-encoding'')
                  | Some a \<Rightarrow> dict_update (snd (pop_header (snd (pop_header (snd (pop_header headers0 ''host'')) ''content-length'')) ''transfer-encoding'')) a),
             o_data = (let req_body = (case body of Some b \<Rightarrow> b | None \<Rightarrow> req_body0)
                       in if req_body \<noteq> [] then Some req_body else None),
             o_proxy_port = pp, o_verify = False, o_allow_redirects = False \<rparr>"
proof -
  let ?E = "[UrlOpen (''/proxy/history/'' @ str_int item_id) []]"
  obtain r where g: "get env item_id 0 = (?E, r)"
    using get_events[of env item_id] by (cases "get env item_id 0") simp
  show ?thesis
  proof (cases r)
    case (Inl e)
    with assms g show ?thesis by (simp add: repeat_def)
  next
    case (Inr item)
    note r = this
    show ?thesis
    proof (cases "\<exists>d. item = VDict d")
      case False
      with assms g r show ?thesis by (cases item) (simp_all add: repeat_def)
    next
      case True
      then obtain d where d: "item = VDict d" by blast
      show ?thesis
      proof (cases "\<exists>t. dict_get d ''request_text'' (VStr []) = VStr t \<and> t \<noteq> []")
        case False
        with assms g r d show ?thesis
          by (cases "dict_get d ''request_text'' (VStr [])") (simp_all add: repeat_def Let_def split: if_splits)
      next
        case True
        then obtain t where t: "dict_get d ''request_text'' (VStr []) = VStr t" "t \<noteq> []" by blast
        let ?text = "foldl (\<lambda>t (old, new). py_replace old new t) t
                       (case replacements of None \<Rightarrow> [] | Some r \<Rightarrow> r)"
        show ?thesis
        proof (cases "parse_http_request ?text")
          case (Inl e)
          with assms g r d t show ?thesis by (simp add: repeat_def Let_def)
        next
          case (Inr parsed)
          obtain m p h0 b0 where parsed: "parsed = (m, p, h0, b0)" by (cases parsed) auto
          note pr = Inr[unfolded parsed]
          show ?thesis
          proof (cases "\<exists>u. dict_get d ''url'' (VStr []) = VStr u")
            case False
            with assms g r d t pr show ?thesis
              by (cases "dict_get d ''url'' (VStr [])") (simp_all add: repeat_def Let_def)
          next
            case True
            then obtain u where u: "dict_get d ''url'' (VStr []) = VStr u" by blast
            let ?url = "(if prefix ''https'' u then ''https'' else ''http'') @ ''://''
                     @ py_str env (case fst (pop_header h0 ''host'') of
                                     Some h \<Rightarrow> if h \<noteq> [] then VStr h else dict_get d ''host'' (VStr [])
                                   | None \<Rightarrow> dict_get d ''host'' (VStr []))
                     @ p"
            let ?hs = "AList.update ''X-Burp-MCP'' (''repeat:'' @ str_int item_id)
                 (case add_headers of
                    None \<Rightarrow> snd (pop_header (snd (pop_header (snd (pop_header h0 ''host'')) ''content-length'')) ''transfer-encoding'')
                  | Some a \<Rightarrow> dict_update (snd (pop_header (snd (pop_header (snd (pop_header h0 ''host'')) ''content-length'')) ''transfer-encoding'')) a)"
            let ?data = "(let req_body = (case body of Some b \<Rightarrow> b | None \<Rightarrow> b0)
                       in if req_body \<noteq> [] then Some req_body else None)"
            have ev: "fst (repeat env item_id replacements add_headers body pp mrb)
                      = ?E @ fst (request env m ?url (Some ?hs) ?data pp mrb)"
              by (simp add: repeat_def Let_def g r d t pr u split: prod.splits sum.splits)
            have "snd (get env item_id 0) = Inr (VDict d)" using g r d by simp
            moreover from assms ev
            have "Transmit out \<in> set (fst (request env m ?url (Some ?hs) ?data pp mrb))" by simp
            then have "requests_installed env \<and> out = \<lparr> o_method = str_upper env m,
             o_url = ?url, o_headers = ?hs, o_data = ?data,
             o_proxy_port = pp, o_verify = False, o_allow_redirects = False \<rparr>"
              by (simp add: request_events update_key_present Let_def split: if_splits)
            ultimately show ?thesis using t pr u by blast
          qed
        qed
      qed
    qed
  qed
qed


section \<open>The parser never fails\<close>

lemma py_split_not_Nil: "py_split sep s \<noteq> []"
  by (induction s) (auto split: list.splits)

lemma parse_header_lines_Inr: "\<exists>hs'. parse_header_lines ls hs = Inr hs'"
  by (induction ls arbitrary: hs) (auto simp: py_split1_def)

lemma parse_http_request_total: "\<exists>m p h b. parse_http_request text = Inr (m, p, h, b)"
proof -
  obtain hp mid body where pt: "py_partition [LF, LF] (py_replace [CR] [LF] (py_replace [CR, LF] [LF] text)) = (hp, mid, body)"
    by (metis prod_cases3)
  obtain l0 ls where sp: "py_split LF hp = l0 # ls"
    using py_split_not_Nil[of LF hp] by (cases "py_split LF hp") auto
  obtain hs where hs: "parse_header_lines ls [] = Inr hs"
    using parse_header_lines_Inr by blast
  show ?thesis
    by (simp add: parse_http_request_def Let_def pt sp hs)
qed

section \<open>Keys of the header dictionary\<close>

lemma update_keys_set: "fst ` set (AList.update k v d) = insert k (fst ` set d)"
  by (induction d) auto

lemma dict_update_keys: "fst ` set (dict_update d a) = fst ` set d \<union> fst ` set a"
  unfolding dict_update_def
proof (induction a arbitrary: d)
  case Nil
  then show ?case by simp
next
  case (Cons x a)
  obtain k v where x: "x = (k, v)" by (cases x)
  from Cons[of "AList.update k v d"] x show ?case
    by (simp add: update_keys_set)
qed

lemma delete_keys_set: "fst ` set (AList.delete k d) = fst ` set d - {k}"
  by (induction d) auto

lemma pop_header_None:
  "find (\<lambda>k. py_lower k = py_lower name) (map fst hs) = None \<Longrightarrow> pop_header hs name = (None, hs)"
  by (simp add: pop_header_def)

lemma pop_header_Some:
  "find (\<lambda>k. py_lower k = py_lower name) (map fst hs) = Some k \<Longrightarrow>
     pop_header hs name = (map_of hs k, AList.delete k hs)"
  by (simp add: pop_header_def)

lemma find_key_Some:
  assumes "find (\<lambda>k. py_lower k = py_lower name) (map fst hs) = Some k"
  shows "k \<in> fst ` set hs" and "py_lower k = py_lower name"
proof -
  from assms obtain i where i: "i < length (map fst hs)" "py_lower (map fst hs ! i) = py_lower name"
    "k = map fst hs ! i"
    unfolding find_Some_iff by blast
  from i have "k \<in> set (map fst hs)" using nth_mem by blast
  then show "k \<in> fst ` set hs" by simp
  from i show "py_lower k = py_lower name" by simp
qed

lemma pop_header_keys_subset: "fst ` set (snd (pop_header hs name)) \<subseteq> fst ` set hs"
  by (cases "find (\<lambda>k. py_lower k = py_lower name) (map fst hs)")
     (auto simp: pop_header_None pop_header_Some delete_keys_set)

lemma pop_header_removes:
  assumes "\<forall>k\<in>fst ` set hs. \<forall>k'\<in>fst ` set hs.
             py_lower k = py_lower name \<and> py_lower k' = py_lower name \<longrightarrow> k = k'"
  shows "\<forall>k\<in>fst ` set (snd (pop_header hs name)). py_lower k \<noteq> py_lower name"
proof (cases "find (\<lambda>k. py_lower k = py_lower name) (map fst hs)")
  case None
  then have "\<forall>k\<in>set (map fst hs). py_lower k \<noteq> py_lower name"
    unfolding find_None_iff by blast
  with None show ?thesis by (simp add: pop_header_None)
next
  case (Some k0)
  from find_key_Some[OF Some] have k0: "k0 \<in> fst ` set hs" "py_lower k0 = py_lower name" .
  have "fst ` set (snd (pop_header hs name)) = fst ` set hs - {k0}"
    by (simp add: pop_header_Some[OF Some] delete_keys_set)
  with assms k0 show ?thesis by blast
qed


lemma lower_host: "py_lower ''host'' = ''host''" by code_simp
lemma lower_content_length: "py_lower ''content-length'' = ''content-length''" by code_simp
lemma lower_transfer_encoding: "py_lower ''transfer-encoding'' = ''transfer-encoding''" by code_simp
lemma lower_marker: "py_lower ''X-Burp-MCP'' = ''x-burp-mcp''" by code_simp

section \<open>Store calls of the tools\<close>








section \<open>Strings: replace, partition, split and strip\<close>

lemma replace_from_no_old:
  "c \<notin> set s \<Longrightarrow> replace_from (c # old') new s = s"
  by (induction s) auto

lemma replace_crlf_step:
  "CR \<notin> set a \<Longrightarrow>
   replace_from [CR, LF] [LF] (a @ CR # LF # rest) = a @ LF # replace_from [CR, LF] [LF] rest"
  by (induction a) auto

lemma replace_cr_free: "CR \<notin> set (replace_from [CR] [LF] s)"
  by (induction s) auto

lemma py_partition_concat: "py_partition sep s = (a, mid, b) \<Longrightarrow> s = a @ mid @ b"
proof (induction s arbitrary: a mid b)
  case Nil
  then show ?case by simp
next
  case (Cons c cs)
  show ?case
  proof (cases "prefix sep (c # cs)")
    case True
    with Cons.prems have "a = []" "mid = sep" "b = drop (length sep) (c # cs)" by auto
    moreover from True have "c # cs = sep @ drop (length sep) (c # cs)"
      by (metis append_eq_conv_conj prefix_def)
    ultimately show ?thesis by simp
  next
    case False
    obtain a' m' b' where r: "py_partition sep cs = (a', m', b')" by (metis prod_cases3)
    with False Cons.prems have "a = c # a'" "mid = m'" "b = b'" by auto
    with Cons.IH[OF r] show ?thesis by simp
  qed
qed

lemma py_partition_walk:
  "LF \<notin> set l \<Longrightarrow>
   py_partition [LF, LF] (l @ r) = (case py_partition [LF, LF] r of (a, m, b) \<Rightarrow> (l @ a, m, b))"
  by (induction l) (auto split: prod.splits)

lemma py_partition_lines:
  "LF \<notin> set l \<Longrightarrow> \<forall>x\<in>set ls. x \<noteq> [] \<and> LF \<notin> set x \<Longrightarrow>
   py_partition [LF, LF] (l @ LF # concat (map (\<lambda>x. x @ [LF]) ls) @ LF # b)
     = (l @ concat (map (\<lambda>x. LF # x) ls), [LF, LF], b)"
proof (induction ls arbitrary: l)
  case Nil
  then show ?case by (simp add: py_partition_walk)
next
  case (Cons x xs)
  then obtain c cs where x: "x = c # cs" "c \<noteq> LF" by (cases x) auto
  have "py_partition [LF, LF] (x @ LF # concat (map (\<lambda>x. x @ [LF]) xs) @ LF # b)
     = (x @ concat (map (\<lambda>x. LF # x) xs), [LF, LF], b)"
    using Cons by simp
  with x Cons.prems(1) show ?case
    by (simp add: py_partition_walk)
qed

lemma py_split_hd: "hd (py_split c s) = takeWhile (\<lambda>x. x \<noteq> c) s"
  by (induction s) (auto simp: py_split_not_Nil split: list.splits)

lemma py_split_parts: "l \<in> set (py_split c s) \<Longrightarrow> c \<notin> set l \<and> set l \<subseteq> set s"
proof (induction s arbitrary: l)
  case Nil
  then show ?case by simp
next
  case (Cons a s)
  show ?case
  proof (cases "a = c")
    case True
    with Cons.prems have "l = [] \<or> l \<in> set (py_split c s)" by simp
    with Cons.IH show ?thesis by auto
  next
    case False
    obtain w ws where sp: "py_split c s = w # ws"
      using py_split_not_Nil[of c s] by (cases "py_split c s") auto
    with False Cons.prems have "l = a # w \<or> l \<in> set ws" by simp
    moreover have "c \<notin> set w \<and> set w \<subseteq> set s" using Cons.IH[of w] sp by simp
    moreover have "\<And>x. x \<in> set ws \<Longrightarrow> c \<notin> set x \<and> set x \<subseteq> set s"
      using Cons.IH sp by simp
    ultimately show ?thesis using False by auto
  qed
qed

lemma py_split_single: "c \<notin> set a \<Longrightarrow> py_split c a = [a]"
  by (induction a) auto

lemma py_split_step: "c \<notin> set a \<Longrightarrow> py_split c (a @ c # rest) = a # py_split c rest"
  by (induction a) auto

lemma py_split_lines:
  "c \<notin> set l \<Longrightarrow> \<forall>x\<in>set ls. c \<notin> set x \<Longrightarrow>
   py_split c (l @ concat (map (\<lambda>x. c # x) ls)) = l # ls"
  by (induction ls arbitrary: l) (auto simp: py_split_single py_split_step)

lemma py_strip_subset: "set (py_strip s) \<subseteq> set s"
  by (auto simp: py_strip_def dest!: set_dropWhileD)

lemma last_dropWhile: "dropWhile P xs \<noteq> [] \<Longrightarrow> last (dropWhile P xs) = last xs"
  by (induction xs) (auto split: if_splits)

lemma py_strip_ends:
  assumes "py_strip s \<noteq> []"
  shows "\<not> is_space (hd (py_strip s))" and "\<not> is_space (last (py_strip s))"
proof -
  let ?u = "dropWhile is_space s"
  let ?w = "dropWhile is_space (rev ?u)"
  from assms have w: "?w \<noteq> []" by (simp add: py_strip_def)
  have u: "?u \<noteq> []"
  proof
    assume "?u = []"
    with w show False by simp
  qed
  have "last (py_strip s) = hd ?w" using w by (simp add: py_strip_def last_rev)
  moreover have "\<not> is_space (hd ?w)" using w hd_dropWhile by blast
  ultimately show "\<not> is_space (last (py_strip s))" by simp
  have "hd (py_strip s) = last ?w" using w by (simp add: py_strip_def hd_rev)
  also have "\<dots> = last (rev ?u)" using w by (rule last_dropWhile)
  also have "\<dots> = hd ?u" using u by (simp add: last_rev)
  finally have "hd (py_strip s) = hd ?u" .
  moreover have "\<not> is_space (hd ?u)" using u hd_dropWhile by blast
  ultimately show "\<not> is_space (hd (py_strip s))" by simp
qed

lemma py_strip_id:
  assumes "s = [] \<or> (\<not> is_space (hd s) \<and> \<not> is_space (last s))"
  shows "py_strip s = s"
proof (cases "s = []")
  case True
  then show ?thesis by (simp add: py_strip_def)
next
  case False
  with assms have h: "\<not> is_space (hd s)" "\<not> is_space (last s)" by auto
  from False h(1) have 1: "dropWhile is_space s = s" by (cases s) auto
  from False h(2) have 2: "dropWhile is_space (rev s) = rev s"
    by (cases "rev s") (auto simp: last_rev[symmetric] hd_rev)
  show ?thesis by (simp add: py_strip_def 1 2)
qed

lemma py_strip_idem: "py_strip (py_strip s) = py_strip s"
  using py_strip_ends[of s] py_strip_id[of "py_strip s"] by blast

lemma py_strip_space_cons: "py_strip (CHR '' '' # v) = py_strip v"
  by (simp add: py_strip_def is_space_def)


section \<open>Parsing a rendered request\<close>

lemma update_absent: "k \<notin> fst ` set al \<Longrightarrow> AList.update k v al = al @ [(k, v)]"
  by (induction al) auto

lemma is_space_chars:
  "is_space (CHR '' '')" "is_space LF" "is_space CR" "is_space (CHR 0x09)"
  by (simp_all add: is_space_def)

lemma token_chars: "token s \<Longrightarrow> CHR '' '' \<notin> set s \<and> LF \<notin> set s \<and> CR \<notin> set s"
  unfolding token_def using is_space_chars by blast

lemma token_strip: "token s \<Longrightarrow> py_strip s = s"
proof -
  assume t: "token s"
  then have "s \<noteq> []" by (simp add: token_def)
  then have "hd s \<in> set s" "last s \<in> set s" by simp_all
  with t have "\<not> is_space (hd s) \<and> \<not> is_space (last s)" by (simp add: token_def)
  then show ?thesis by (intro py_strip_id) simp
qed

lemma ows_chars:
  assumes "ows s"
  shows "LF \<notin> set s \<and> CR \<notin> set s \<and> (\<forall>c\<in>set s. is_space c)"
proof -
  have a: "\<And>c. c \<in> set s \<Longrightarrow> c = CHR '' '' \<or> c = CHR 0x09"
    using assms unfolding ows_def by blast
  have 1: "LF \<notin> set s"
  proof
    assume "LF \<in> set s"
    from a[OF this] show False by simp
  qed
  have 2: "CR \<notin> set s"
  proof
    assume "CR \<in> set s"
    from a[OF this] show False by simp
  qed
  have 3: "\<forall>c\<in>set s. is_space c"
  proof
    fix c assume "c \<in> set s"
    from a[OF this] show "is_space c"
    proof
      assume "c = CHR '' ''"
      then show ?thesis by (simp only: is_space_chars)
    next
      assume "c = CHR 0x09"
      then show ?thesis by (simp only: is_space_chars)
    qed
  qed
  from 1 2 3 show ?thesis by blast
qed

lemma replace_crlf_pass:
  "CR \<notin> set a \<Longrightarrow> replace_from [CR, LF] [LF] (a @ r) = a @ replace_from [CR, LF] [LF] r"
  by (induction a) auto

lemma replace_cr_pass:
  "CR \<notin> set a \<Longrightarrow> replace_from [CR] [LF] (a @ r) = a @ replace_from [CR] [LF] r"
  by (induction a) auto

lemma replace_crlf_eol:
  assumes "eol = [LF] \<or> eol = [CR, LF]" and "CR \<notin> set a"
  shows "replace_from [CR, LF] [LF] (a @ eol @ r) = a @ LF # replace_from [CR, LF] [LF] r"
proof -
  from assms(1) show ?thesis
  proof
    assume e: "eol = [LF]"
    have "replace_from [CR, LF] [LF] ((a @ [LF]) @ r) = (a @ [LF]) @ replace_from [CR, LF] [LF] r"
      using assms(2) by (intro replace_crlf_pass) simp
    with e show ?thesis by simp
  next
    assume e: "eol = [CR, LF]"
    with replace_crlf_step[OF assms(2), of r] show ?thesis by simp
  qed
qed

lemma dropWhile_rev_id: "s \<noteq> [] \<Longrightarrow> \<not> P (last s) \<Longrightarrow> dropWhile P (rev s) = rev s"
  by (cases s rule: rev_cases) simp_all

lemma strip_padded:
  assumes "\<forall>c\<in>set pre. is_space c" "\<forall>c\<in>set post. is_space c" "py_strip v = v"
  shows "py_strip (pre @ v @ post) = v"
proof (cases "v = []")
  case True
  have "\<forall>c\<in>set (pre @ post). is_space c" using assms(1,2) by auto
  then have d: "dropWhile is_space (pre @ post) = []"
    by (simp only: dropWhile_eq_Nil_conv)
  have "py_strip (pre @ post) = []"
    unfolding py_strip_def d by simp
  with True show ?thesis by simp
next
  case False
  with assms(3) py_strip_ends[of v] have e: "\<not> is_space (hd v)" "\<not> is_space (last v)" by auto
  have "\<And>x. x \<in> set pre \<Longrightarrow> is_space x" using assms(1) by simp
  then have "dropWhile is_space (pre @ v @ post) = dropWhile is_space (v @ post)"
    by (rule dropWhile_append2)
  also have "\<dots> = v @ post"
    using False e(1) by (cases v) simp_all
  finally have 1: "dropWhile is_space (pre @ v @ post) = v @ post" .
  have "\<And>x. x \<in> set (rev post) \<Longrightarrow> is_space x" using assms(2) by simp
  then have "dropWhile is_space (rev post @ rev v) = dropWhile is_space (rev v)"
    by (rule dropWhile_append2)
  also have "\<dots> = rev v"
    using False e(2) by (rule dropWhile_rev_id)
  finally have 2: "dropWhile is_space (rev (v @ post)) = rev v" by simp
  show ?thesis by (simp only: py_strip_def 1 2 rev_rev_ident)
qed


lemma normalise_lines:
  assumes "eol = [LF] \<or> eol = [CR, LF]" and "\<forall>l\<in>set ls. CR \<notin> set l"
  shows "replace_from [CR, LF] [LF] (concat (map (\<lambda>l. l @ eol) ls) @ r)
           = concat (map (\<lambda>l. l @ [LF]) ls) @ replace_from [CR, LF] [LF] r"
  using assms(2)
proof (induction ls)
  case Nil
  then show ?case by simp
next
  case (Cons l ls)
  then have c: "CR \<notin> set l" by simp
  have "replace_from [CR, LF] [LF] (l @ eol @ (concat (map (\<lambda>l. l @ eol) ls) @ r))
          = l @ LF # replace_from [CR, LF] [LF] (concat (map (\<lambda>l. l @ eol) ls) @ r)"
    using assms(1) c by (rule replace_crlf_eol)
  with Cons show ?case by simp
qed

lemma split1_colon:
  assumes "CHR '':'' \<notin> set name"
  shows "py_split1 (CHR '':'') (name @ CHR '':'' # r) = [name, r]"
proof -
  have n: "\<And>x. x \<in> set name \<Longrightarrow> x \<noteq> CHR '':''" using assms by blast
  have 1: "takeWhile (\<lambda>c. c \<noteq> CHR '':'') (name @ CHR '':'' # r) = name"
    using n by (simp add: takeWhile_append2)
  have 2: "dropWhile (\<lambda>c. c \<noteq> CHR '':'') (name @ CHR '':'' # r) = CHR '':'' # r"
    using n by (simp add: dropWhile_append2)
  have 3: "CHR '':'' \<in> set (name @ CHR '':'' # r)" by simp
  show ?thesis unfolding py_split1_def 1 2 using 3 by simp
qed

lemma parse_header_lines_render:
  assumes "\<forall>(name, pre, v, post)\<in>set hs.
             token name \<and> CHR '':'' \<notin> set name \<and> ows pre \<and> ows post \<and> py_strip v = v"
    and "distinct (map fst hs)"
    and "fst ` set acc \<inter> fst ` set hs = {}"
  shows "parse_header_lines (map (header_line []) hs) acc
           = Inr (acc @ map (\<lambda>(name, pre, v, post). (name, v)) hs)"
  using assms
proof (induction hs arbitrary: acc)
  case Nil
  then show ?case by simp
next
  case (Cons h hs)
  obtain name pre v post where h: "h = (name, pre, v, post)" by (cases h) auto
  from Cons.prems(1) h have f: "token name" "CHR '':'' \<notin> set name" "ows pre" "ows post" "py_strip v = v"
    by simp_all
  have line: "header_line [] h = name @ CHR '':'' # (pre @ v @ post)"
    by (simp add: header_line_def h)
  have sp: "py_split1 (CHR '':'') (header_line [] h) = [name, pre @ v @ post]"
    unfolding line using f(2) by (rule split1_colon)
  have col: "CHR '':'' \<in> set (header_line [] h)" unfolding line by simp
  have sn: "py_strip name = name" using f(1) by (rule token_strip)
  have sv: "py_strip (pre @ v @ post) = v"
    using ows_chars[OF f(3)] ows_chars[OF f(4)] f(5) by (intro strip_padded) blast+
  from Cons.prems(3) h have na: "name \<notin> fst ` set acc" by auto
  have up: "AList.update name v acc = acc @ [(name, v)]" using na by (rule update_absent)
  have p1: "\<forall>(name, pre, v, post)\<in>set hs.
             token name \<and> CHR '':'' \<notin> set name \<and> ows pre \<and> ows post \<and> py_strip v = v"
    using Cons.prems(1) by simp
  have p2: "distinct (map fst hs)" using Cons.prems(2) by simp
  have nh: "name \<notin> fst ` set hs" using Cons.prems(2) h by simp
  have p3: "fst ` set (acc @ [(name, v)]) \<inter> fst ` set hs = {}"
    using Cons.prems(3) nh by auto
  have step: "parse_header_lines (map (header_line []) (h # hs)) acc
                = parse_header_lines (map (header_line []) hs) (acc @ [(name, v)])"
    using col by (simp add: sp sn sv up)
  show ?case
    unfolding step Cons.IH[OF p1 p2 p3] by (simp add: h)
qed


lemma header_line_chars:
  assumes "(name, pre, v, post) \<in> set hs"
    and "token name \<and> CHR '':'' \<notin> set name \<and> ows pre \<and> ows post
         \<and> py_strip v = v \<and> LF \<notin> set v \<and> CR \<notin> set v"
  shows "header_line [] (name, pre, v, post) \<noteq> []
         \<and> LF \<notin> set (header_line [] (name, pre, v, post))
         \<and> CR \<notin> set (header_line [] (name, pre, v, post))"
proof -
  from assms(2) have t: "token name" and p: "ows pre" and q: "ows post"
    and v: "LF \<notin> set v" "CR \<notin> set v" by simp_all
  note tc = token_chars[OF t] and pc = ows_chars[OF p] and qc = ows_chars[OF q]
  have "set (header_line [] (name, pre, v, post))
          = set name \<union> {CHR '':''} \<union> set pre \<union> set v \<union> set post"
    by (auto simp: header_line_def)
  moreover have "LF \<noteq> CHR '':''" "CR \<noteq> CHR '':''" by simp_all
  ultimately have "LF \<notin> set (header_line [] (name, pre, v, post))"
    and "CR \<notin> set (header_line [] (name, pre, v, post))"
    using tc pc qc v by blast+
  moreover have "header_line [] (name, pre, v, post) \<noteq> []" by (simp add: header_line_def)
  ultimately show ?thesis by blast
qed

lemma header_line_eol: "header_line eol h = header_line [] h @ eol"
  by (cases h) (simp add: header_line_def)

lemma request_line_split:
  assumes "token m" "token p" "token v"
  shows "py_strip (m @ CHR '' '' # p @ CHR '' '' # v) = m @ CHR '' '' # p @ CHR '' '' # v"
    and "py_split (CHR '' '') (m @ CHR '' '' # p @ CHR '' '' # v) = [m, p, v]"
proof -
  note mc = token_chars[OF assms(1)] and pc = token_chars[OF assms(2)]
    and vc = token_chars[OF assms(3)]
  from assms have ne: "m \<noteq> []" "v \<noteq> []" by (simp_all add: token_def)
  have h: "hd (m @ CHR '' '' # p @ CHR '' '' # v) = hd m" using ne by simp
  have l: "last (m @ CHR '' '' # p @ CHR '' '' # v) = last v" using ne by simp
  have "hd m \<in> set m" "last v \<in> set v" using ne by simp_all
  with assms have "\<not> is_space (hd m)" "\<not> is_space (last v)" by (simp_all add: token_def)
  then show "py_strip (m @ CHR '' '' # p @ CHR '' '' # v) = m @ CHR '' '' # p @ CHR '' '' # v"
    by (intro py_strip_id) (simp only: h l, simp)
  have "py_split (CHR '' '') (m @ CHR '' '' # (p @ CHR '' '' # v))
          = m # py_split (CHR '' '') (p @ CHR '' '' # v)"
    using mc by (intro py_split_step) simp
  also have "py_split (CHR '' '') (p @ CHR '' '' # v) = p # py_split (CHR '' '') v"
    using pc by (intro py_split_step) simp
  also have "py_split (CHR '' '') v = [v]"
    using vc by (intro py_split_single) simp
  finally show "py_split (CHR '' '') (m @ CHR '' '' # p @ CHR '' '' # v) = [m, p, v]" .
qed

lemma header_fields_names: "map fst (header_fields rq) = map fst (rq_headers rq)"
  by (simp add: header_fields_def case_prod_beta comp_def)

lemma parse_render:
  assumes wf: "well_formed rq" and d: "distinct (map fst (header_fields rq))"
  shows "parse_http_request (render rq)
           = Inr (rq_method rq, rq_path rq, header_fields rq, body_content (rq_body rq))"
proof -
  define rl where "rl = rq_method rq @ CHR '' '' # rq_path rq @ CHR '' '' # rq_version rq"
  define ls where "ls = map (header_line []) (rq_headers rq)"
  define eol where "eol = rq_eol rq"
  define b1 where "b1 = replace_from [CR, LF] [LF] (rq_body rq)"
  define b2 where "b2 = replace_from [CR] [LF] b1"
  define pf where "pf = rl @ LF # concat (map (\<lambda>l. l @ [LF]) ls) @ [LF]"
  from wf have tm: "token (rq_method rq)" and tp: "token (rq_path rq)"
    and tv: "token (rq_version rq)" and e: "eol = [LF] \<or> eol = [CR, LF]"
    and hs: "\<forall>(name, pre, v, post)\<in>set (rq_headers rq).
         token name \<and> CHR '':'' \<notin> set name \<and> ows pre \<and> ows post \<and>
         py_strip v = v \<and> LF \<notin> set v \<and> CR \<notin> set v"
    by (simp_all add: well_formed_def eol_def)
  have hl: "\<And>l. l \<in> set ls \<Longrightarrow> l \<noteq> [] \<and> LF \<notin> set l \<and> CR \<notin> set l"
  proof -
    fix l assume "l \<in> set ls"
    then obtain h where h: "h \<in> set (rq_headers rq)" "l = header_line [] h"
      by (auto simp: ls_def)
    obtain name pre v post where hh: "h = (name, pre, v, post)" by (cases h) auto
    from hs h(1) hh have "token name \<and> CHR '':'' \<notin> set name \<and> ows pre \<and> ows post
         \<and> py_strip v = v \<and> LF \<notin> set v \<and> CR \<notin> set v" by blast
    from header_line_chars[OF h(1)[unfolded hh] this] show "l \<noteq> [] \<and> LF \<notin> set l \<and> CR \<notin> set l"
      by (simp add: h(2) hh)
  qed
  have rlc: "LF \<notin> set rl" "CR \<notin> set rl"
    using token_chars[OF tm] token_chars[OF tp] token_chars[OF tv] by (simp_all add: rl_def)
  have "header_line eol = (\<lambda>h. header_line [] h @ eol)"
    by (rule ext) (rule header_line_eol)
  then have cm: "concat (map (header_line eol) (rq_headers rq)) = concat (map (\<lambda>l. l @ eol) ls)"
    by (simp add: ls_def comp_def)
  have r: "render rq = rl @ eol @ (concat (map (\<lambda>l. l @ eol) ls) @ eol @ rq_body rq)"
    by (simp add: render_def rl_def cm[unfolded eol_def] eol_def)
  have "replace_from [CR, LF] [LF] (render rq)
          = rl @ LF # replace_from [CR, LF] [LF] (concat (map (\<lambda>l. l @ eol) ls) @ eol @ rq_body rq)"
    unfolding r using e rlc(2) by (rule replace_crlf_eol)
  also have "replace_from [CR, LF] [LF] (concat (map (\<lambda>l. l @ eol) ls) @ eol @ rq_body rq)
          = concat (map (\<lambda>l. l @ [LF]) ls) @ replace_from [CR, LF] [LF] (eol @ rq_body rq)"
    using e hl by (intro normalise_lines) blast+
  also have "replace_from [CR, LF] [LF] (eol @ rq_body rq) = LF # b1"
    using replace_crlf_eol[OF e, of "[]" "rq_body rq"] by (simp add: b1_def)
  finally have n1: "replace_from [CR, LF] [LF] (render rq) = pf @ b1" by (simp add: pf_def)
  have "CR \<notin> set pf"
    using rlc(2) hl by (auto simp: pf_def)
  then have n2: "replace_from [CR] [LF] (pf @ b1) = pf @ b2"
    unfolding b2_def by (rule replace_cr_pass)
  have "py_replace [CR] [LF] (py_replace [CR, LF] [LF] (render rq)) = pf @ b2"
    by (simp add: py_replace_def n1 n2)
  then have n: "py_replace [CR] [LF] (py_replace [CR, LF] [LF] (render rq))
          = rl @ LF # concat (map (\<lambda>l. l @ [LF]) ls) @ LF # b2"
    by (simp add: pf_def)
  have pt: "py_partition [LF, LF] (rl @ LF # concat (map (\<lambda>l. l @ [LF]) ls) @ LF # b2)
          = (rl @ concat (map (\<lambda>x. LF # x) ls), [LF, LF], b2)"
    using rlc(1) hl by (intro py_partition_lines) blast+
  have sl: "py_split LF (rl @ concat (map (\<lambda>x. LF # x) ls)) = rl # ls"
    using rlc(1) hl by (intro py_split_lines) blast+
  note rs = request_line_split[OF tm tp tv, folded rl_def]
  have hs': "\<forall>(name, pre, v, post)\<in>set (rq_headers rq).
         token name \<and> CHR '':'' \<notin> set name \<and> ows pre \<and> ows post \<and> py_strip v = v"
    using hs by blast
  have d': "distinct (map fst (rq_headers rq))"
    using d by (simp only: header_fields_names)
  have "parse_header_lines (map (header_line []) (rq_headers rq)) []
          = Inr ([] @ map (\<lambda>(name, pre, v, post). (name, v)) (rq_headers rq))"
    using hs' d' by (rule parse_header_lines_render) simp
  then have ph: "parse_header_lines ls [] = Inr (header_fields rq)"
    by (simp add: ls_def header_fields_def)
  have bc: "py_strip b2 = body_content (rq_body rq)"
    by (simp add: body_content_def py_replace_def b2_def b1_def)
  show ?thesis
    by (simp add: parse_http_request_def n pt sl rs ph bc)
qed


lemma body_content_idem: "body_content (body_content b) = body_content b"
proof -
  define s where "s = body_content b"
  have "set s \<subseteq> set (replace_from [CR] [LF] (replace_from [CR, LF] [LF] b))"
    unfolding s_def body_content_def py_replace_def using py_strip_subset by simp
  with replace_cr_free have c: "CR \<notin> set s" by blast
  have st: "py_strip s = s"
    unfolding s_def body_content_def by (rule py_strip_idem)
  have "replace_from [CR, LF] [LF] s = s" "replace_from [CR] [LF] s = s"
    using c by (simp_all add: replace_from_no_old)
  then have "body_content s = s"
    by (simp add: body_content_def[of s] py_replace_def st)
  then show ?thesis by (simp add: s_def)
qed

lemma build_canonical:
  "build (rq_method rq, rq_path rq, header_fields rq, body_content (rq_body rq))
     = render (canonical rq)"
proof -
  have "concat (map (\<lambda>(k, v). k @ '': '' @ v @ [CR, LF]) (map (\<lambda>(name, pre, v, post). (name, v)) hs))
          = concat (map (header_line [CR, LF]) (map (\<lambda>(name, pre, v, post). (name, '' '', v, [])) hs))"
    for hs :: "(string \<times> string \<times> string \<times> string) list"
    by (induction hs) (auto simp: header_line_def)
  then show ?thesis
    by (simp add: build_def render_def canonical_def header_fields_def)
qed

lemma token_version: "token ''HTTP/1.1''"
  by (simp add: token_def is_space_def)

lemma well_formed_canonical:
  assumes "well_formed rq"
  shows "well_formed (canonical rq)"
proof -
  from assms have tm: "token (rq_method rq)" and tp: "token (rq_path rq)"
    and hs: "\<forall>(name, pre, v, post)\<in>set (rq_headers rq).
         token name \<and> CHR '':'' \<notin> set name \<and> ows pre \<and> ows post \<and>
         py_strip v = v \<and> LF \<notin> set v \<and> CR \<notin> set v"
    by (simp_all add: well_formed_def)
  have o: "ows '' ''" "ows []" by (simp_all add: ows_def)
  have "\<forall>(name, pre, v, post)\<in>set (map (\<lambda>(name, pre, v, post). (name, '' '', v, [])) (rq_headers rq)).
         token name \<and> CHR '':'' \<notin> set name \<and> ows pre \<and> ows post \<and>
         py_strip v = v \<and> LF \<notin> set v \<and> CR \<notin> set v"
    using hs o by fastforce
  then show ?thesis
    using tm tp token_version by (simp add: well_formed_def canonical_def)
qed

lemma header_fields_canonical: "header_fields (canonical rq) = header_fields rq"
  by (simp add: header_fields_def canonical_def comp_def case_prod_beta)

lemma render_content_unique:
  assumes "well_formed rq" "distinct (map fst (header_fields rq))"
    and "well_formed rq'" "distinct (map fst (header_fields rq'))"
    and "render rq = render rq'"
  shows "rq_method rq = rq_method rq' \<and> rq_path rq = rq_path rq'
         \<and> header_fields rq = header_fields rq'
         \<and> body_content (rq_body rq) = body_content (rq_body rq')"
  using parse_render[OF assms(1,2)] parse_render[OF assms(3,4)] assms(5) by simp

section \<open>Claims\<close>

text \<open>
  C3. Parsing succeeds on every text, and a request line without a path token gives
  the path \<open>/\<close>; but the method is not defaulted: \<open>str.split(" ")\<close> never returns
  an empty list, so the branch that would give \<open>GET\<close> is never taken. On the
  empty text the parser returns the empty method.
\<close>

theorem parse_http_request_empty_text:
  "parse_http_request [] = Inr ([], ''/'', [], [])"
  by code_simp

text \<open>
  C1. An override whose name differs from a stored key only in case is not matched
  with that key: \<open>headers.update(add_headers)\<close> compares keys exactly. With the
  stored key \<open>content-type\<close> and the override \<open>Content-Type\<close> the request handed to
  the transport carries both entries, the stored one with its old value.
\<close>

theorem repeat_override_other_case_keeps_both:
  "transmitted (fst (repeat
      (demo_env (demo_item (''POST /login HTTP/1.1'' @ [LF] @ ''Host: a.test'' @ [LF]
                             @ ''content-type: text/plain'' @ [LF, LF] @ ''user=bob'')
                   ''https://a.test/login'' ''a.test'')
                (demo_resp 200 ''ok''))
      7 None (Some [(''Content-Type'', ''application/json'')]) None 8080 4000))
   = [\<lparr> o_method = ''POST'', o_url = ''https://a.test/login'',
         o_headers = [(''content-type'', ''text/plain''),
                      (''Content-Type'', ''application/json''),
                      (''X-Burp-MCP'', ''repeat:7'')],
         o_data = Some ''user=bob'', o_proxy_port = 8080,
         o_verify = False, o_allow_redirects = False \<rparr>]"
  by code_simp

text \<open>
  C7. When \<open>request\<close> gets a response with text \<open>b\<close> and the limit \<open>m\<close> is
  positive and below the length of \<open>b\<close>, the body returned is the first \<open>m\<close>
  characters of \<open>b\<close>, a line feed and the marker naming \<open>len(b) - m\<close> omitted
  characters; when \<open>m\<close> is zero or \<open>b\<close> is no longer than \<open>m\<close>, the body returned is \<open>b\<close>.
\<close>

theorem request_truncates_body:
  assumes "requests_installed env"
    and "fst (request env meth target hdrs body pp m) = [Transmit out]"
    and "requests_request env out = Inr resp"
  shows "\<exists>result. snd (request env meth target hdrs body pp m) = Inr result \<and>
     (m > 0 \<and> int (length (resp_text resp)) > m \<longrightarrow>
        dict_get result ''body'' VNone =
          VStr (take (nat m) (resp_text resp) @ [LF] @ ''[... ''
                @ str_int (int (length (resp_text resp)) - m) @ '' chars omitted]'')) \<and>
     (m = 0 \<or> int (length (resp_text resp)) \<le> m \<longrightarrow>
        dict_get result ''body'' VNone = VStr (resp_text resp))"
proof -
  from assms(1,2) have out: "out = \<lparr> o_method = str_upper env meth, o_url = target,
              o_headers = (let h = (case hdrs of None \<Rightarrow> [] | Some h \<Rightarrow> h)
                           in if ''X-Burp-MCP'' \<notin> set (map fst h)
                              then AList.update ''X-Burp-MCP'' ''request'' h else h),
              o_data = body, o_proxy_port = pp, o_verify = False, o_allow_redirects = False \<rparr>"
    by (simp add: request_events)
  show ?thesis
    using assms(1) assms(3)[unfolded out]
    by (auto simp: request_def Let_def dict_get_def)
qed

theorem request_truncates_body_witness:
  "requests_installed (demo_env VNone (demo_resp 200 ''abcdefghijklmnopqrstuvwxy''))
   \<and> length ''abcdefghijklmnopqrstuvwxy'' = 25
   \<and> (\<exists>result. snd (request (demo_env VNone (demo_resp 200 ''abcdefghijklmnopqrstuvwxy''))
                        ''get'' ''http://t.test/'' None None 8080 10) = Inr result
        \<and> dict_get result ''body'' VNone = VStr (''abcdefghij'' @ [LF] @ ''[... 15 chars omitted]''))"
proof -
  let ?E = "demo_env VNone (demo_resp 200 ''abcdefghijklmnopqrstuvwxy'')"
  let ?out = "\<lparr> o_method = ''GET'', o_url = ''http://t.test/'',
                 o_headers = [(''X-Burp-MCP'', ''request'')], o_data = None,
                 o_proxy_port = 8080, o_verify = False, o_allow_redirects = False \<rparr>"
  have h1: "requests_installed ?E" by code_simp
  have h2: "fst (request ?E ''get'' ''http://t.test/'' None None 8080 10) = [Transmit ?out]"
    by code_simp
  have h3: "requests_request ?E ?out = Inr (demo_resp 200 ''abcdefghijklmnopqrstuvwxy'')"
    by code_simp
  have n: "str_int (int (length (resp_text (demo_resp 200 ''abcdefghijklmnopqrstuvwxy''))) - 10) = ''15''"
    by code_simp
  from request_truncates_body[OF h1 h2 h3] n h1 show ?thesis
    by (simp add: demo_resp_def)
qed

text \<open>
  Under the key \<open>X-Burp-MCP\<close> itself every request that \<open>repeat\<close> hands to the
  transport holds \<open>repeat:\<close> followed by the item identifier, and every request
  that \<open>request\<close> hands to the transport holds the caller's value or \<open>request\<close>.
\<close>

lemma marker_under_exact_key:
  "(Transmit out \<in> set (fst (repeat env item_id replacements add_headers body pp mrb)) \<longrightarrow>
      map_of (o_headers out) ''X-Burp-MCP'' = Some (''repeat:'' @ str_int item_id)) \<and>
   (Transmit out' \<in> set (fst (request env meth target hdrs body' pp' mrb')) \<longrightarrow>
      map_of (o_headers out') ''X-Burp-MCP''
        = Some (dict_get (case hdrs of None \<Rightarrow> [] | Some h \<Rightarrow> h) ''X-Burp-MCP'' ''request''))"
proof (intro conjI impI)
  assume "Transmit out \<in> set (fst (repeat env item_id replacements add_headers body pp mrb))"
  from repeat_transmit_shape[OF this]
  show "map_of (o_headers out) ''X-Burp-MCP'' = Some (''repeat:'' @ str_int item_id)"
    by (auto simp: update_conv')
next
  assume "Transmit out' \<in> set (fst (request env meth target hdrs body' pp' mrb'))"
  then show "map_of (o_headers out') ''X-Burp-MCP''
        = Some (dict_get (case hdrs of None \<Rightarrow> [] | Some h \<Rightarrow> h) ''X-Burp-MCP'' ''request'')"
    by (auto simp: request_events Let_def update_conv' dict_get_def map_of_absent
             dest: weak_map_of_SomeI split: if_splits option.splits)
qed

text \<open>
  C8. The marker is assigned under the exact key \<open>X-Burp-MCP\<close>, after the
  overrides. A header of that name in another casing is another key of the
  dictionary: with \<open>X-Burp-MCP: captured\<close> in the captured text and the override
  \<open>x-burp-mcp: spoofed\<close>, the request handed to the transport holds the marker and,
  after it, the same header with the value \<open>spoofed\<close>.
\<close>

theorem repeat_marker_beside_other_casing:
  "transmitted (fst (repeat
      (demo_env (demo_item (''GET / HTTP/1.1'' @ [LF] @ ''X-Burp-MCP: captured'')
                   ''http://a.test/'' ''a.test'')
                (demo_resp 200 ''ok''))
      7 None (Some [(''x-burp-mcp'', ''spoofed'')]) None 8080 4000))
   = [\<lparr> o_method = ''GET'', o_url = ''http://a.test/'',
         o_headers = [(''X-Burp-MCP'', ''repeat:7''), (''x-burp-mcp'', ''spoofed'')],
         o_data = None, o_proxy_port = 8080,
         o_verify = False, o_allow_redirects = False \<rparr>]"
  by code_simp



text \<open>
  C5. The first thing \<open>repeat\<close> does is to fetch the item with \<open>max_body = 0\<close>,
  which asks the store for \<open>/proxy/history/<id>\<close> without a truncation
  parameter; and when the fetched item is a dictionary whose \<open>request_text\<close> is
  absent or the empty string, \<open>repeat\<close> raises \<open>RuntimeError("No request text for
  item <id>")\<close> with that fetch as its only event: nothing is transmitted.
\<close>

theorem repeat_fetches_first_and_needs_request_text:
  "fst (get env item_id 0) = [UrlOpen (''/proxy/history/'' @ str_int item_id) []] \<and>
   (\<exists>rest. fst (repeat env item_id replacements add_headers body pp mrb)
            = UrlOpen (''/proxy/history/'' @ str_int item_id) [] # rest) \<and>
   (snd (get env item_id 0) = Inr (VDict d) \<and>
    (map_of d ''request_text'' = None \<or> map_of d ''request_text'' = Some (VStr [])) \<longrightarrow>
      repeat env item_id replacements add_headers body pp mrb
        = ([UrlOpen (''/proxy/history/'' @ str_int item_id) []],
           Inl (RuntimeError (''No request text for item '' @ str_int item_id))))"
proof -
  let ?E = "[UrlOpen (''/proxy/history/'' @ str_int item_id) []]"
  obtain r where g: "get env item_id 0 = (?E, r)"
    using get_events[of env item_id] by (cases "get env item_id 0") simp
  have a: "fst (get env item_id 0) = ?E" by (rule get_events)
  have b: "\<exists>rest. fst (repeat env item_id replacements add_headers body pp mrb) = ?E @ rest"
    by (auto simp: repeat_def g Let_def split: sum.splits pyval.splits prod.splits)
  have c: "snd (get env item_id 0) = Inr (VDict d) \<and>
    (map_of d ''request_text'' = None \<or> map_of d ''request_text'' = Some (VStr [])) \<longrightarrow>
      repeat env item_id replacements add_headers body pp mrb
        = (?E, Inl (RuntimeError (''No request text for item '' @ str_int item_id)))"
    using g by (auto simp: repeat_def dict_get_def Let_def)
  from a b c show ?thesis by simp
qed

theorem repeat_fetches_first_and_needs_request_text_witness:
  "snd (get (demo_env (VDict [(''url'', VStr ''http://a.test/''), (''request_text'', VStr [])])
                      (demo_resp 200 ''ok'')) 7 0)
     = Inr (VDict [(''url'', VStr ''http://a.test/''), (''request_text'', VStr [])])
   \<and> map_of [(''url'', VStr ''http://a.test/''), (''request_text'', VStr [])] ''request_text''
       = Some (VStr [])
   \<and> repeat (demo_env (VDict [(''url'', VStr ''http://a.test/''), (''request_text'', VStr [])])
                      (demo_resp 200 ''ok'')) 7 None None None 8080 4000
       = ([UrlOpen ''/proxy/history/7'' []], Inl (RuntimeError ''No request text for item 7''))"
proof -
  let ?d = "[(''url'', VStr ''http://a.test/''), (''request_text'', VStr [])]"
  let ?E = "demo_env (VDict ?d) (demo_resp 200 ''ok'')"
  have h1: "snd (get ?E 7 0) = Inr (VDict ?d)" by code_simp
  have h2: "map_of ?d ''request_text'' = Some (VStr [])" by simp
  have n: "str_int 7 = ''7''" by code_simp
  from repeat_fetches_first_and_needs_request_text[where env = ?E and item_id = 7 and d = ?d
      and replacements = None and add_headers = None and body = None and pp = 8080 and mrb = 4000]
    h1 h2
  have "repeat ?E 7 None None None 8080 4000
        = ([UrlOpen (''/proxy/history/'' @ str_int 7) []],
           Inl (RuntimeError (''No request text for item '' @ str_int 7)))"
    by blast
  with h1 h2 n show ?thesis by simp
qed

text \<open>
  C2, as stated, fails: the overrides are applied after the automatic headers are
  dropped, so an override named \<open>Content-Length\<close> is in the request handed to the
  transport.
\<close>

theorem repeat_override_reinstates_content_length:
  "transmitted (fst (repeat
      (demo_env (demo_item (''POST /login HTTP/1.1'' @ [LF] @ ''Host: a.test'' @ [LF]
                             @ ''Content-Length: 42'' @ [LF, LF] @ ''user=bob'')
                   ''http://a.test/login'' ''a.test'')
                (demo_resp 200 ''ok''))
      7 None (Some [(''Content-Length'', ''5'')]) None 8080 4000))
   = [\<lparr> o_method = ''POST'', o_url = ''http://a.test/login'',
         o_headers = [(''Content-Length'', ''5''), (''X-Burp-MCP'', ''repeat:7'')],
         o_data = Some ''user=bob'', o_proxy_port = 8080,
         o_verify = False, o_allow_redirects = False \<rparr>]"
  by code_simp

text \<open>
  \<open>_pop_header\<close> returns at the first key that matches, so of two casings of one
  automatic header in the captured text only the first is dropped.
\<close>

lemma repeat_keeps_second_casing:
  "transmitted (fst (repeat
      (demo_env (demo_item (''POST /login HTTP/1.1'' @ [LF] @ ''Host: a.test'' @ [LF]
                             @ ''Content-Length: 42'' @ [LF] @ ''content-length: 43''
                             @ [LF, LF] @ ''user=bob'')
                   ''http://a.test/login'' ''a.test'')
                (demo_resp 200 ''ok''))
      7 None None None 8080 4000))
   = [\<lparr> o_method = ''POST'', o_url = ''http://a.test/login'',
         o_headers = [(''content-length'', ''43''), (''X-Burp-MCP'', ''repeat:7'')],
         o_data = Some ''user=bob'', o_proxy_port = 8080,
         o_verify = False, o_allow_redirects = False \<rparr>]"
  by code_simp

text \<open>
  C2, amended. When the parsed request carries \<open>content-length\<close> and
  \<open>transfer-encoding\<close> under at most one casing each, and no override is named
  \<open>content-length\<close> or \<open>transfer-encoding\<close> in any casing, no header of the
  request handed to the transport has one of these two names in any casing.
\<close>

theorem repeat_strips_auto_headers:
  assumes tr: "Transmit out \<in> set (fst (repeat env item_id replacements add_headers body pp mrb))"
    and g: "snd (get env item_id 0) = Inr (VDict d)"
    and t: "dict_get d ''request_text'' (VStr []) = VStr text0"
    and p: "parse_http_request (foldl (\<lambda>t (old, new). py_replace old new t) text0
              (case replacements of None \<Rightarrow> [] | Some r \<Rightarrow> r)) = Inr (m, p, h0, b0)"
    and single: "\<forall>k\<in>fst ` set h0. \<forall>k'\<in>fst ` set h0.
              py_lower k = py_lower k' \<and> py_lower k \<in> {''content-length'', ''transfer-encoding''}
              \<longrightarrow> k = k'"
    and ov: "\<forall>k\<in>fst ` set (case add_headers of None \<Rightarrow> [] | Some a \<Rightarrow> a).
              py_lower k \<notin> {''content-length'', ''transfer-encoding''}"
  shows "\<forall>k\<in>fst ` set (o_headers out).
              py_lower k \<notin> {''content-length'', ''transfer-encoding''}"
proof -
  let ?A = "snd (pop_header h0 ''host'')"
  let ?B = "snd (pop_header ?A ''content-length'')"
  let ?C = "snd (pop_header ?B ''transfer-encoding'')"
  let ?ov = "(case add_headers of None \<Rightarrow> [] | Some a \<Rightarrow> a)"
  from repeat_transmit_shape[OF tr] g t p
  have oh: "o_headers out = AList.update ''X-Burp-MCP'' (''repeat:'' @ str_int item_id)
                 (case add_headers of None \<Rightarrow> ?C | Some a \<Rightarrow> dict_update ?C a)"
    by auto
  have keys: "fst ` set (o_headers out) \<subseteq> insert ''X-Burp-MCP'' (fst ` set ?C \<union> fst ` set ?ov)"
    unfolding oh by (cases add_headers) (auto simp: update_keys_set dict_update_keys)
  have A: "fst ` set ?A \<subseteq> fst ` set h0" by (rule pop_header_keys_subset)
  have B: "fst ` set ?B \<subseteq> fst ` set ?A" by (rule pop_header_keys_subset)
  have C: "fst ` set ?C \<subseteq> fst ` set ?B" by (rule pop_header_keys_subset)
  have "\<forall>k\<in>fst ` set ?A. \<forall>k'\<in>fst ` set ?A.
             py_lower k = py_lower ''content-length'' \<and> py_lower k' = py_lower ''content-length''
             \<longrightarrow> k = k'"
  proof (intro ballI impI)
    fix k k' assume a: "k \<in> fst ` set ?A" "k' \<in> fst ` set ?A"
      "py_lower k = py_lower ''content-length'' \<and> py_lower k' = py_lower ''content-length''"
    from a A have "k \<in> fst ` set h0" "k' \<in> fst ` set h0" by blast+
    moreover from a have "py_lower k = py_lower k'"
      "py_lower k \<in> {''content-length'', ''transfer-encoding''}"
      by (simp_all add: lower_content_length)
    ultimately show "k = k'" using single by blast
  qed
  from pop_header_removes[OF this]
  have nB: "\<forall>k\<in>fst ` set ?B. py_lower k \<noteq> ''content-length''"
    by (simp add: lower_content_length)
  have "\<forall>k\<in>fst ` set ?B. \<forall>k'\<in>fst ` set ?B.
             py_lower k = py_lower ''transfer-encoding'' \<and> py_lower k' = py_lower ''transfer-encoding''
             \<longrightarrow> k = k'"
  proof (intro ballI impI)
    fix k k' assume a: "k \<in> fst ` set ?B" "k' \<in> fst ` set ?B"
      "py_lower k = py_lower ''transfer-encoding'' \<and> py_lower k' = py_lower ''transfer-encoding''"
    from a A B have "k \<in> fst ` set h0" "k' \<in> fst ` set h0" by blast+
    moreover from a have "py_lower k = py_lower k'"
      "py_lower k \<in> {''content-length'', ''transfer-encoding''}"
      by (simp_all add: lower_transfer_encoding)
    ultimately show "k = k'" using single by blast
  qed
  from pop_header_removes[OF this]
  have nC: "\<forall>k\<in>fst ` set ?C. py_lower k \<noteq> ''transfer-encoding''"
    by (simp add: lower_transfer_encoding)
  have nC': "\<forall>k\<in>fst ` set ?C. py_lower k \<noteq> ''content-length''"
    using nB C by blast
  show ?thesis
  proof
    fix k assume "k \<in> fst ` set (o_headers out)"
    with keys have "k = ''X-Burp-MCP'' \<or> k \<in> fst ` set ?C \<or> k \<in> fst ` set ?ov" by blast
    then show "py_lower k \<notin> {''content-length'', ''transfer-encoding''}"
    proof (elim disjE)
      assume "k = ''X-Burp-MCP''"
      then show ?thesis by (simp add: lower_marker)
    next
      assume "k \<in> fst ` set ?C"
      with nC nC' have "py_lower k \<noteq> ''transfer-encoding''" "py_lower k \<noteq> ''content-length''"
        by blast+
      then show ?thesis by simp
    next
      assume "k \<in> fst ` set ?ov"
      with ov show ?thesis by blast
    qed
  qed
qed

theorem repeat_strips_auto_headers_witness:
  "Transmit \<lparr> o_method = ''POST'', o_url = ''https://a.test/login'',
              o_headers = [(''X-Custom'', ''1''), (''X-Burp-MCP'', ''repeat:7'')],
              o_data = Some ''user=bob'', o_proxy_port = 8080,
              o_verify = False, o_allow_redirects = False \<rparr>
     \<in> set (fst (repeat
          (demo_env (VDict [(''request_text'',
                       VStr (''POST /login HTTP/1.1'' @ [LF] @ ''Host: a.test'' @ [LF]
                             @ ''Content-Length: 9'' @ [LF] @ ''Transfer-Encoding: chunked''
                             @ [LF, LF] @ ''user=bob'')),
                     (''url'', VStr ''https://a.test/login'')])
                    (demo_resp 200 ''ok''))
          7 None (Some [(''X-Custom'', ''1'')]) None 8080 4000))
   \<and> map py_lower (map fst [(''X-Custom'', ''1''), (''X-Burp-MCP'', ''repeat:7'')])
       = [''x-custom'', ''x-burp-mcp'']"
proof -
  let ?text = "''POST /login HTTP/1.1'' @ [LF] @ ''Host: a.test'' @ [LF]
                 @ ''Content-Length: 9'' @ [LF] @ ''Transfer-Encoding: chunked''
                 @ [LF, LF] @ ''user=bob''"
  let ?d = "[(''request_text'', VStr ?text), (''url'', VStr ''https://a.test/login'')]"
  let ?E = "demo_env (VDict ?d) (demo_resp 200 ''ok'')"
  let ?h0 = "[(''Host'', ''a.test''), (''Content-Length'', ''9''), (''Transfer-Encoding'', ''chunked'')]"
  let ?o = "\<lparr> o_method = ''POST'', o_url = ''https://a.test/login'',
              o_headers = [(''X-Custom'', ''1''), (''X-Burp-MCP'', ''repeat:7'')],
              o_data = Some ''user=bob'', o_proxy_port = 8080,
              o_verify = False, o_allow_redirects = False \<rparr>"
  have tr: "Transmit ?o \<in> set (fst (repeat ?E 7 None (Some [(''X-Custom'', ''1'')]) None 8080 4000))"
    by code_simp
  have g: "snd (get ?E 7 0) = Inr (VDict ?d)" by code_simp
  have t: "dict_get ?d ''request_text'' (VStr []) = VStr ?text" by code_simp
  have p: "parse_http_request (foldl (\<lambda>t (old, new). py_replace old new t) ?text
              (case None of None \<Rightarrow> [] | Some r \<Rightarrow> r)) = Inr (''POST'', ''/login'', ?h0, ''user=bob'')"
    by code_simp
  have single: "\<forall>k\<in>fst ` set ?h0. \<forall>k'\<in>fst ` set ?h0.
              py_lower k = py_lower k' \<and> py_lower k \<in> {''content-length'', ''transfer-encoding''}
              \<longrightarrow> k = k'"
    by code_simp
  have ov: "\<forall>k\<in>fst ` set (case Some [(''X-Custom'', ''1'')] of None \<Rightarrow> [] | Some a \<Rightarrow> a).
              py_lower k \<notin> {''content-length'', ''transfer-encoding''}"
    by code_simp
  have e: "map py_lower (map fst [(''X-Custom'', ''1''), (''X-Burp-MCP'', ''repeat:7'')])
       = [''x-custom'', ''x-burp-mcp'']"
    by code_simp
  from repeat_strips_auto_headers[OF tr g t p single ov]
  have "py_lower ''X-Custom'' \<notin> {''content-length'', ''transfer-encoding''}" by simp
  with tr e show ?thesis by blast
qed

text \<open>
  C6, as stated, fails: the host is taken before the overrides are applied. With
  \<open>Host: a.test\<close> in the captured text and an override \<open>Host: b.test\<close>, the
  mutated request's \<open>Host\<close> header is \<open>b.test\<close>, yet the URL goes to \<open>a.test\<close> and
  the \<open>Host\<close> header is in the header set handed to the transport.
\<close>

theorem repeat_host_override_not_used_for_url:
  "transmitted (fst (repeat
      (demo_env (demo_item (''GET / HTTP/1.1'' @ [LF] @ ''Host: a.test'' @ [LF, LF])
                   ''http://a.test/'' ''a.test'')
                (demo_resp 200 ''ok''))
      7 None (Some [(''Host'', ''b.test'')]) None 8080 4000))
   = [\<lparr> o_method = ''GET'', o_url = ''http://a.test/'',
         o_headers = [(''Host'', ''b.test''), (''X-Burp-MCP'', ''repeat:7'')],
         o_data = None, o_proxy_port = 8080,
         o_verify = False, o_allow_redirects = False \<rparr>]"
  by code_simp

text \<open>
  C6, amended. The scheme of the outbound URL is \<open>https\<close> when the item's
  recorded URL starts with \<open>https\<close> and \<open>http\<close> otherwise, also when the item has
  no URL. The host is taken from the request as parsed after the text
  substitutions, before the overrides: the value of the first header whose name is
  \<open>host\<close> in any casing, when that value is not empty, and the item's recorded host
  when there is no such header or its value is empty. That header is removed: its
  key is in the header set handed to the transport only when an override has that
  very key.
\<close>

theorem repeat_url_scheme_and_host:
  assumes tr: "Transmit out \<in> set (fst (repeat env item_id replacements add_headers body pp mrb))"
    and g: "snd (get env item_id 0) = Inr (VDict d)"
    and t: "dict_get d ''request_text'' (VStr []) = VStr text0"
    and p: "parse_http_request (foldl (\<lambda>t (old, new). py_replace old new t) text0
              (case replacements of None \<Rightarrow> [] | Some r \<Rightarrow> r)) = Inr (m, p, h0, b0)"
  shows "\<exists>u host. dict_get d ''url'' (VStr []) = VStr u \<and>
      o_url out = (if prefix ''https'' u then ''https'' else ''http'') @ ''://'' @ host @ p \<and>
      (case find (\<lambda>k. py_lower k = ''host'') (map fst h0) of
         None \<Rightarrow> host = py_str env (dict_get d ''host'' (VStr []))
       | Some k \<Rightarrow>
           host = (if dict_get h0 k [] \<noteq> [] then dict_get h0 k []
                   else py_str env (dict_get d ''host'' (VStr []))) \<and>
           (k \<in> fst ` set (o_headers out) \<longrightarrow>
              k \<in> fst ` set (case add_headers of None \<Rightarrow> [] | Some a \<Rightarrow> a)))"
proof -
  let ?A = "snd (pop_header h0 ''host'')"
  let ?B = "snd (pop_header ?A ''content-length'')"
  let ?C = "snd (pop_header ?B ''transfer-encoding'')"
  let ?ov = "(case add_headers of None \<Rightarrow> [] | Some a \<Rightarrow> a)"
  let ?ih = "dict_get d ''host'' (VStr [])"
  let ?hv = "(case fst (pop_header h0 ''host'') of
                Some h \<Rightarrow> if h \<noteq> [] then VStr h else ?ih | None \<Rightarrow> ?ih)"
  from repeat_transmit_shape[OF tr] g t p
  obtain u where u: "dict_get d ''url'' (VStr []) = VStr u"
    and ou: "o_url out = (if prefix ''https'' u then ''https'' else ''http'') @ ''://''
                         @ py_str env ?hv @ p"
    and oh: "o_headers out = AList.update ''X-Burp-MCP'' (''repeat:'' @ str_int item_id)
                 (case add_headers of None \<Rightarrow> ?C | Some a \<Rightarrow> dict_update ?C a)"
    by auto
  have keys: "fst ` set (o_headers out) \<subseteq> insert ''X-Burp-MCP'' (fst ` set ?C \<union> fst ` set ?ov)"
    unfolding oh by (cases add_headers) (auto simp: update_keys_set dict_update_keys)
  have CA: "fst ` set ?C \<subseteq> fst ` set ?A"
    using pop_header_keys_subset[of ?B "''transfer-encoding''"]
          pop_header_keys_subset[of ?A "''content-length''"] by blast
  have host: "(case find (\<lambda>k. py_lower k = ''host'') (map fst h0) of
         None \<Rightarrow> py_str env ?hv = py_str env ?ih
       | Some k \<Rightarrow>
           py_str env ?hv = (if dict_get h0 k [] \<noteq> [] then dict_get h0 k []
                   else py_str env ?ih) \<and>
           (k \<in> fst ` set (o_headers out) \<longrightarrow> k \<in> fst ` set ?ov))"
  proof (cases "find (\<lambda>k. py_lower k = ''host'') (map fst h0)")
    case None
    then have "find (\<lambda>k. py_lower k = py_lower ''host'') (map fst h0) = None"
      by (simp add: lower_host)
    from pop_header_None[OF this] None show ?thesis by simp
  next
    case (Some k)
    then have f: "find (\<lambda>k. py_lower k = py_lower ''host'') (map fst h0) = Some k"
      by (simp add: lower_host)
    from find_key_Some[OF f] have k: "k \<in> fst ` set h0" "py_lower k = ''host''"
      by (simp_all add: lower_host)
    then obtain v where v: "map_of h0 k = Some v"
      by (metis weak_map_of_SomeI imageE prod.collapse)
    have pop: "pop_header h0 ''host'' = (Some v, AList.delete k h0)"
      using pop_header_Some[OF f] v by simp
    have "k \<noteq> ''X-Burp-MCP''" using k(2) lower_marker by auto
    moreover have "k \<notin> fst ` set ?C"
      using CA by (auto simp: pop delete_keys_set)
    ultimately have rm: "k \<in> fst ` set (o_headers out) \<longrightarrow> k \<in> fst ` set ?ov"
      using keys by blast
    have "py_str env ?hv = (if dict_get h0 k [] \<noteq> [] then dict_get h0 k [] else py_str env ?ih)"
    proof -
      have dv: "dict_get h0 k [] = v" by (simp add: dict_get_def v)
      have sv: "py_str env (VStr v) = v" by (simp add: py_str_def)
      show ?thesis unfolding dv by (simp add: pop sv)
    qed
    with rm Some show ?thesis by simp
  qed
  from u ou host show ?thesis by blast
qed

theorem repeat_url_scheme_and_host_witness:
  "Transmit \<lparr> o_method = ''GET'', o_url = ''https://a.test/x'',
              o_headers = [(''X-Burp-MCP'', ''repeat:7'')],
              o_data = None, o_proxy_port = 8080,
              o_verify = False, o_allow_redirects = False \<rparr>
     \<in> set (fst (repeat
          (demo_env (VDict [(''request_text'',
                       VStr (''GET /x HTTP/1.1'' @ [LF] @ ''HOST: a.test'' @ [LF, LF])),
                     (''url'', VStr ''https://recorded.test/x''),
                     (''host'', VStr ''recorded.test'')])
                    (demo_resp 200 ''ok''))
          7 None None None 8080 4000))
   \<and> find (\<lambda>k. py_lower k = ''host'') (map fst [(''HOST'', ''a.test'')]) = Some ''HOST''
   \<and> ''HOST'' \<notin> fst ` set [(''X-Burp-MCP'', ''repeat:7'')]"
proof -
  let ?text = "''GET /x HTTP/1.1'' @ [LF] @ ''HOST: a.test'' @ [LF, LF]"
  let ?d = "[(''request_text'', VStr ?text), (''url'', VStr ''https://recorded.test/x''),
             (''host'', VStr ''recorded.test'')]"
  let ?E = "demo_env (VDict ?d) (demo_resp 200 ''ok'')"
  let ?h0 = "[(''HOST'', ''a.test'')]"
  let ?o = "\<lparr> o_method = ''GET'', o_url = ''https://a.test/x'',
              o_headers = [(''X-Burp-MCP'', ''repeat:7'')],
              o_data = None, o_proxy_port = 8080,
              o_verify = False, o_allow_redirects = False \<rparr>"
  have tr: "Transmit ?o \<in> set (fst (repeat ?E 7 None None None 8080 4000))"
    by code_simp
  have g: "snd (get ?E 7 0) = Inr (VDict ?d)" by code_simp
  have t: "dict_get ?d ''request_text'' (VStr []) = VStr ?text" by code_simp
  have p: "parse_http_request (foldl (\<lambda>t (old, new). py_replace old new t) ?text
              (case None of None \<Rightarrow> [] | Some r \<Rightarrow> r)) = Inr (''GET'', ''/x'', ?h0, [])"
    by code_simp
  have f: "find (\<lambda>k. py_lower k = ''host'') (map fst ?h0) = Some ''HOST''" by code_simp
  from repeat_url_scheme_and_host[OF tr g t p, unfolded f]
  have "''HOST'' \<in> fst ` set (o_headers ?o) \<longrightarrow>
          ''HOST'' \<in> fst ` set (case None :: headers option of None \<Rightarrow> [] | Some a \<Rightarrow> a)"
    by auto
  then have "''HOST'' \<notin> fst ` set [(''X-Burp-MCP'', ''repeat:7'')]" by simp
  with tr f show ?thesis by blast
qed


text \<open>
  An exception that \<open>requests\<close> raises for an unreachable forwarding endpoint is
  not a \<open>RuntimeError\<close>; \<open>_safe\<close> lets it pass.
\<close>

lemma burp_request_transport_exception_passes:
  "snd (run_tool proxy_down_env (Burp_request ''GET'' ''http://t.test/'' None None 8080 4000))
   = Inl (OSError ''ProxyError'')"
  by code_simp

text \<open>
  The handlers of \<open>_get\<close> and \<open>_post\<close> turn two failures into
  \<open>RuntimeError\<close>. A body of an HTTP error that is not UTF-8, and an exception
  that is neither \<open>HTTPError\<close> nor \<open>URLError\<close>, leave the client as they are,
  and \<open>_safe\<close> lets them pass.
\<close>

lemma tool_passes_undecodable_error_body:
  "run_tool garbled_env Burp_health = ([UrlOpen ''/health'' []], Inl UnicodeDecodeError)"
  by code_simp

lemma tool_passes_dropped_connection:
  "run_tool dropped_env Burp_health
   = ([UrlOpen ''/health'' []], Inl (OSError ''RemoteDisconnected''))"
  by code_simp



text \<open>
  C4, as stated, fails for a text in which a header name occurs twice. The parser
  assigns the fields into a dictionary, so of two \<open>Cookie\<close> fields only the later
  one is returned, and the rebuilt text states one field where the text stated two.
\<close>

theorem two_cookies_one_survives:
  "well_formed two_cookies
   \<and> render two_cookies
       = ''GET / HTTP/1.1'' @ [CR, LF] @ ''Cookie: a=1'' @ [CR, LF] @ ''Cookie: b=2'' @ [CR, LF] @ [CR, LF]
   \<and> header_fields two_cookies = [(''Cookie'', ''a=1''), (''Cookie'', ''b=2'')]
   \<and> parse_http_request (render two_cookies) = Inr (''GET'', ''/'', [(''Cookie'', ''b=2'')], [])
   \<and> build (''GET'', ''/'', [(''Cookie'', ''b=2'')], [])
       = ''GET / HTTP/1.1'' @ [CR, LF] @ ''Cookie: b=2'' @ [CR, LF] @ [CR, LF]"
  by code_simp

text \<open>
  C4, amended. For every well-formed raw request text in which no header name
  occurs twice, the parser returns the method, the path and the header fields of
  the text, in their order, and its body up to whitespace; and \<open>build\<close> of what the
  parser returns is the text of a well-formed request with the same method, the
  same path, the same header fields and the same body up to whitespace: the
  request itself in the layout of \<open>build\<close>.
\<close>

theorem build_parse_round_trip:
  assumes "well_formed rq" and "distinct (map fst (header_fields rq))"
  shows "parse_http_request (render rq)
           = Inr (rq_method rq, rq_path rq, header_fields rq, body_content (rq_body rq))
         \<and> build (rq_method rq, rq_path rq, header_fields rq, body_content (rq_body rq))
           = render (canonical rq)
         \<and> well_formed (canonical rq)
         \<and> rq_method (canonical rq) = rq_method rq
         \<and> rq_path (canonical rq) = rq_path rq
         \<and> header_fields (canonical rq) = header_fields rq
         \<and> body_content (rq_body (canonical rq)) = body_content (rq_body rq)"
proof -
  have "body_content (rq_body (canonical rq)) = body_content (rq_body rq)"
    by (simp add: canonical_def body_content_idem)
  moreover have "rq_method (canonical rq) = rq_method rq" "rq_path (canonical rq) = rq_path rq"
    by (simp_all add: canonical_def)
  ultimately show ?thesis
    using parse_render[OF assms] build_canonical[of rq] well_formed_canonical[OF assms(1)]
      header_fields_canonical[of rq]
    by blast
qed

theorem build_parse_round_trip_witness:
  "well_formed login_request
   \<and> distinct (map fst (header_fields login_request))
   \<and> render login_request
       = ''POST /login HTTP/1.0'' @ [LF] @ ''Host:'' @ [CHR 0x09] @ '' a.test '' @ [LF]
         @ ''Content-Length:9'' @ [LF, LF, LF] @ ''user=bob'' @ [CR, LF]
   \<and> parse_http_request (render login_request)
       = Inr (''POST'', ''/login'', [(''Host'', ''a.test''), (''Content-Length'', ''9'')], ''user=bob'')
   \<and> build (''POST'', ''/login'', [(''Host'', ''a.test''), (''Content-Length'', ''9'')], ''user=bob'')
       = render (canonical login_request)
   \<and> render (canonical login_request)
       = ''POST /login HTTP/1.1'' @ [CR, LF] @ ''Host: a.test'' @ [CR, LF]
         @ ''Content-Length: 9'' @ [CR, LF] @ [CR, LF] @ ''user=bob''"
proof -
  have w: "well_formed login_request" by code_simp
  have d: "distinct (map fst (header_fields login_request))" by code_simp
  have r: "render login_request
       = ''POST /login HTTP/1.0'' @ [LF] @ ''Host:'' @ [CHR 0x09] @ '' a.test '' @ [LF]
         @ ''Content-Length:9'' @ [LF, LF, LF] @ ''user=bob'' @ [CR, LF]" by code_simp
  have c: "render (canonical login_request)
       = ''POST /login HTTP/1.1'' @ [CR, LF] @ ''Host: a.test'' @ [CR, LF]
         @ ''Content-Length: 9'' @ [CR, LF] @ [CR, LF] @ ''user=bob''" by code_simp
  have m: "rq_method login_request = ''POST''" "rq_path login_request = ''/login''"
    "header_fields login_request = [(''Host'', ''a.test''), (''Content-Length'', ''9'')]"
    "body_content (rq_body login_request) = ''user=bob''" by code_simp+
  from build_parse_round_trip[OF w d] w d r c show ?thesis
    unfolding m by blast
qed

end
